theory Spec2Isabelle
  imports Main "HOL-Library.Word" "HOL-Library.Char_ord" "HOL-Library.List_Lexorder"
    "HOL-Library.Product_Lexorder"
begin

text \<open>
  The sources are three entry points of the Syntax Extractor extension for the editor: the
  TypeScript \<open>src/extension.ts\<close> (the command \<open>syntaxExtractor.openGui\<close> and its
  \<open>getWebviewContent\<close>), a JavaScript extension (the command
  \<open>codeExtractor.extractCode\<close>, \<open>showWebview\<close> and its \<open>getWebviewContent\<close>) and a
  later TypeScript extension (\<open>openWebviewAndExplorerSidebar\<close>,
  \<open>handleReceivedMessage\<close>, \<open>clipBoardPolling\<close>, \<open>composeWebViewContent\<close>). The
  definitions come first, each written from its source function; the properties follow.
\<close>

section \<open>JavaScript strings\<close>

text \<open>
  A JavaScript string is a sequence of UTF-16 code units, and \<open>s.length\<close> is the number
  of those units. The string literals of the sources are ASCII; \<open>ascii\<close> embeds them.
\<close>

type_synonym jsstring = "16 word list"

definition ascii :: "string \<Rightarrow> jsstring" where
  "ascii s = map of_char s"

definition isHighSurrogate :: "16 word \<Rightarrow> bool" where
  "isHighSurrogate u = (0xD800 \<le> u \<and> u \<le> 0xDBFF)"

definition isLowSurrogate :: "16 word \<Rightarrow> bool" where
  "isLowSurrogate u = (0xDC00 \<le> u \<and> u \<le> 0xDFFF)"

definition isSurrogate :: "16 word \<Rightarrow> bool" where
  "isSurrogate u = (0xD800 \<le> u \<and> u \<le> 0xDFFF)"

text \<open>
  The count the specification asks of the Counter, written from its words: the number of
  Unicode scalar values the text encodes. A high surrogate followed by a low surrogate is
  one scalar value; every other unit is one (an unpaired surrogate is read as one
  replacement character, as a lossy decoder does).
\<close>

fun scalarCount :: "jsstring \<Rightarrow> nat" where
  "scalarCount [] = 0"
| "scalarCount [u] = 1"
| "scalarCount (u # v # us) =
     (if isHighSurrogate u \<and> isLowSurrogate v then Suc (scalarCount us)
      else Suc (scalarCount (v # us)))"

text \<open>
  The character count of the sources is the expression \<open>text.length\<close>
  (\<open>message.text.length\<close>, \<open>clipboardContent.length\<close>).
\<close>

definition charCount :: "jsstring \<Rightarrow> nat" where
  "charCount t = length t"

section \<open>The configuration store\<close>

text \<open>
  What a call of the sources can throw, or an awaited promise reject with: the
  \<open>TypeError\<close> of reading a property of \<open>undefined\<close>, or an error of a function that
  is imported (with its message).
\<close>

datatype jsError = TypeError | Thrown jsstring

text \<open>
  Modelled from the spec: the class \<open>ConfigManager\<close> (\<open>./config/ConfigManager\<close>) is
  imported by the extension and is not among the sources. The specification describes the
  configuration store as simple get/set pairs for the file types, the compression level
  and a display-box height, persisted externally. The types of the level and of the
  height are left open. The handler awaits the setters: \<open>persist\<close>, a parameter, is the
  external write of the store as updated, and gives the error when the write is rejected.
\<close>

record ('l, 'h) ConfigManager =
  storedCompressionLevel :: 'l
  storedFileTypes :: "jsstring list"
  storedClipboardDataBoxHeight :: 'h

definition getCompressionLevel :: "('l, 'h) ConfigManager \<Rightarrow> 'l" where
  "getCompressionLevel c = storedCompressionLevel c"

definition getFileTypes :: "('l, 'h) ConfigManager \<Rightarrow> jsstring list" where
  "getFileTypes c = storedFileTypes c"

definition getClipboardDataBoxHeight :: "('l, 'h) ConfigManager \<Rightarrow> 'h" where
  "getClipboardDataBoxHeight c = storedClipboardDataBoxHeight c"

definition written ::
  "(('l, 'h) ConfigManager \<Rightarrow> jsError option) \<Rightarrow> ('l, 'h) ConfigManager \<Rightarrow>
   jsError + ('l, 'h) ConfigManager" where
  "written persist c = (case persist c of Some e \<Rightarrow> Inl e | None \<Rightarrow> Inr c)"

definition setCompressionLevel ::
  "(('l, 'h) ConfigManager \<Rightarrow> jsError option) \<Rightarrow> 'l \<Rightarrow> ('l, 'h) ConfigManager \<Rightarrow>
   jsError + ('l, 'h) ConfigManager" where
  "setCompressionLevel persist v c = written persist (c\<lparr>storedCompressionLevel := v\<rparr>)"

definition setFileTypes ::
  "(('l, 'h) ConfigManager \<Rightarrow> jsError option) \<Rightarrow> jsstring list \<Rightarrow>
   ('l, 'h) ConfigManager \<Rightarrow> jsError + ('l, 'h) ConfigManager" where
  "setFileTypes persist v c = written persist (c\<lparr>storedFileTypes := v\<rparr>)"

definition setClipboardDataBoxHeight ::
  "(('l, 'h) ConfigManager \<Rightarrow> jsError option) \<Rightarrow> 'h \<Rightarrow> ('l, 'h) ConfigManager \<Rightarrow>
   jsError + ('l, 'h) ConfigManager" where
  "setClipboardDataBoxHeight persist v c =
     written persist (c\<lparr>storedClipboardDataBoxHeight := v\<rparr>)"

text \<open>
  The invariant the specification states for the FileTypeSet: every entry is non-empty,
  lower-cased and begins with a dot. Lower-cased is read on the ASCII letters: no unit of
  the entry is one of \<open>A\<close> .. \<open>Z\<close>.
\<close>

definition isUpperAscii :: "16 word \<Rightarrow> bool" where
  "isUpperAscii u = (0x41 \<le> u \<and> u \<le> 0x5A)"

definition validFileType :: "jsstring \<Rightarrow> bool" where
  "validFileType e =
     (case e of [] \<Rightarrow> False | u # us \<Rightarrow> u = 0x2E \<and> \<not> list_ex isUpperAscii e)"

definition fileTypeSetInvariant :: "jsstring list \<Rightarrow> bool" where
  "fileTypeSetInvariant ts = list_all validFileType ts"

section \<open>Messages between the webview and the extension\<close>

text \<open>
  A message received from the webview (the parameter is declared \<open>any\<close>): the command
  string and the fields the handler uses. The handler reads a property of one field only,
  \<open>message.text.length\<close>, which throws when the message has no text: \<open>text\<close> is
  \<open>None\<close> then. The other fields are handed on as they are.
\<close>

record ('l, 'h) message =
  command :: jsstring
  level :: 'l
  fileTypes :: "jsstring list"
  height :: 'h
  "text" :: "jsstring option"
  fileType :: jsstring

text \<open>
  The messages the extension posts with \<open>panel.webview.postMessage\<close>. The handler posts
  \<open>configUpdated\<close> in two shapes: with the file types only, and with the three
  configuration values. \<open>updateClipboardDataBox\<close> carries the content and, where the code
  adds them, the token count and the character count.
\<close>

datatype ('l, 'h) posted =
    RefreshComplete
  | SetTokenCount nat
  | SetCharCount nat
  | ConfigUpdatedFileTypes "jsstring list"
  | ConfigUpdated 'l "jsstring list" 'h
  | InitConfig "jsstring list" 'l 'h
  | UpdateClipboardDataBox jsstring "(nat \<times> nat) option"

datatype ('l, 'h) effect =
    PostMessage "('l, 'h) posted"
  | OpenWebpage

text \<open>\<open>Array.prototype.indexOf\<close>: the first index of the element, or -1.\<close>

fun indexOf :: "'a list \<Rightarrow> 'a \<Rightarrow> int" where
  "indexOf [] x = -1"
| "indexOf (y # ys) x =
     (if y = x then 0 else (let i = indexOf ys x in if i = -1 then -1 else i + 1))"

text \<open>\<open>xs.splice(i, 1)\<close> for an index inside the array, and \<open>xs.push(x)\<close>.\<close>

definition splice1 :: "nat \<Rightarrow> 'a list \<Rightarrow> 'a list" where
  "splice1 i xs = take i xs @ drop (Suc i) xs"

definition push :: "'a \<Rightarrow> 'a list \<Rightarrow> 'a list" where
  "push x xs = xs @ [x]"

text \<open>
  \<open>refreshFileTypes\<close> awaits \<open>initializeFileTypeConfiguration\<close>, which is imported from
  \<open>./operations/initializeFileTypes\<close> and is a parameter here: some update of the store,
  or an error.
\<close>

definition refreshFileTypes ::
  "(('l, 'h) ConfigManager \<Rightarrow> jsError + ('l, 'h) ConfigManager) \<Rightarrow>
   ('l, 'h) ConfigManager \<Rightarrow> jsError + ('l, 'h) ConfigManager" where
  "refreshFileTypes initializeFileTypeConfiguration c = initializeFileTypeConfiguration c"

text \<open>
  The \<open>switch\<close> of \<open>handleReceivedMessage\<close>: what the case taken did up to its end or up
  to the exception, and then the store, or the exception. \<open>getTokenCount\<close> (imported
  from \<open>./operations\<close>) and \<open>handleOpenWebpage\<close> (from \<open>./commands/openWebpage\<close>) are
  parameters: \<open>getTokenCount\<close> is given the text of the message, which may be missing,
  and gives a count or throws; \<open>handleOpenWebpage\<close> returns (\<open>None\<close>) or throws. A command
  that matches no case leaves the store as it is and posts nothing.
\<close>

definition handleCommand ::
  "(jsstring option \<Rightarrow> jsError + nat) \<Rightarrow>
   (('l, 'h) ConfigManager \<Rightarrow> jsError + ('l, 'h) ConfigManager) \<Rightarrow>
   (('l, 'h) ConfigManager \<Rightarrow> jsError option) \<Rightarrow> jsError option \<Rightarrow>
   ('l, 'h) message \<Rightarrow> ('l, 'h) ConfigManager \<Rightarrow>
   ('l, 'h) effect list \<times> (jsError + ('l, 'h) ConfigManager)" where
  "handleCommand getTokenCount initializeFileTypeConfiguration persist handleOpenWebpage msg c =
     (if command msg = ascii ''refreshFileTypes'' then
        (case refreshFileTypes initializeFileTypeConfiguration c of
           Inl e \<Rightarrow> ([], Inl e)
         | Inr c' \<Rightarrow> ([PostMessage RefreshComplete], Inr c'))
      else if command msg = ascii ''setCompressionLevel'' then
        ([], setCompressionLevel persist (level msg) c)
      else if command msg = ascii ''setFileTypes'' then
        ([], setFileTypes persist (fileTypes msg) c)
      else if command msg = ascii ''setClipboardDataBoxHeight'' then
        ([], setClipboardDataBoxHeight persist (height msg) c)
      else if command msg = ascii ''openWebpage'' then
        (case handleOpenWebpage of
           Some e \<Rightarrow> ([OpenWebpage], Inl e)
         | None \<Rightarrow> ([OpenWebpage], Inr c))
      else if command msg = ascii ''countTokens'' then
        (case getTokenCount (text msg) of
           Inl e \<Rightarrow> ([], Inl e)
         | Inr tokenCount \<Rightarrow> ([PostMessage (SetTokenCount tokenCount)], Inr c))
      else if command msg = ascii ''countChars'' then
        (case text msg of
           None \<Rightarrow> ([], Inl TypeError)
         | Some t \<Rightarrow> ([PostMessage (SetCharCount (charCount t))], Inr c))
      else if command msg = ascii ''requestCounts'' then
        (case getTokenCount (text msg) of
           Inl e \<Rightarrow> ([], Inl e)
         | Inr tokenCount \<Rightarrow>
             (case text msg of
                None \<Rightarrow> ([PostMessage (SetTokenCount tokenCount)], Inl TypeError)
              | Some t \<Rightarrow>
                  ([PostMessage (SetTokenCount tokenCount),
                    PostMessage (SetCharCount (charCount t))], Inr c)))
      else if command msg = ascii ''updateFileTypes'' then
        (let currentFileTypes = getFileTypes c;
             fileTypeIndex = indexOf currentFileTypes (fileType msg);
             currentFileTypes' =
               (if fileTypeIndex > -1 then splice1 (nat fileTypeIndex) currentFileTypes
                else push (fileType msg) currentFileTypes)
         in case setFileTypes persist currentFileTypes' c of
              Inl e \<Rightarrow> ([], Inl e)
            | Inr c' \<Rightarrow> ([PostMessage (ConfigUpdatedFileTypes currentFileTypes')], Inr c'))
      else ([], Inr c))"

text \<open>
  \<open>handleReceivedMessage\<close>: the switch; when it has not thrown, the store is read and
  posted back as \<open>configUpdated\<close>; when it has, the exception leaves the handler and the
  lines after the switch do not run. The handler's awaits are run one message at a time.
\<close>

definition handleReceivedMessage ::
  "(jsstring option \<Rightarrow> jsError + nat) \<Rightarrow>
   (('l, 'h) ConfigManager \<Rightarrow> jsError + ('l, 'h) ConfigManager) \<Rightarrow>
   (('l, 'h) ConfigManager \<Rightarrow> jsError option) \<Rightarrow> jsError option \<Rightarrow>
   ('l, 'h) message \<Rightarrow> ('l, 'h) ConfigManager \<Rightarrow>
   ('l, 'h) effect list \<times> (jsError + ('l, 'h) ConfigManager)" where
  "handleReceivedMessage getTokenCount initializeFileTypeConfiguration persist
       handleOpenWebpage msg c =
     (case handleCommand getTokenCount initializeFileTypeConfiguration persist
             handleOpenWebpage msg c of
        (out, Inl e) \<Rightarrow> (out, Inl e)
      | (out, Inr c') \<Rightarrow>
          (out @ [PostMessage (ConfigUpdated (getCompressionLevel c') (getFileTypes c')
                    (getClipboardDataBoxHeight c'))], Inr c'))"

text \<open>The full \<open>configUpdated\<close>, with the three values of the configuration.\<close>

fun isConfigUpdated :: "('l, 'h) effect \<Rightarrow> bool" where
  "isConfigUpdated (PostMessage (ConfigUpdated l ts h)) = True"
| "isConfigUpdated _ = False"

text \<open>The commands that the switch has a case for.\<close>

definition switchCases :: "jsstring list" where
  "switchCases =
     [ascii ''refreshFileTypes'', ascii ''setCompressionLevel'', ascii ''setFileTypes'',
      ascii ''setClipboardDataBoxHeight'', ascii ''openWebpage'', ascii ''countTokens'',
      ascii ''countChars'', ascii ''requestCounts'', ascii ''updateFileTypes'']"

text \<open>
  Where a concrete message is evaluated, the parameters have to be supplied: a token
  counter (the number of units of the text, 0 for a missing text), an initialisation of
  the file types that leaves the store as it is, a write that succeeds, and a
  \<open>handleOpenWebpage\<close> that returns.
\<close>

definition unitsAsTokens :: "jsstring \<Rightarrow> nat" where
  "unitsAsTokens t = length t"

definition countsUnits :: "jsstring option \<Rightarrow> jsError + nat" where
  "countsUnits t = Inr (case t of None \<Rightarrow> 0 | Some u \<Rightarrow> unitsAsTokens u)"

definition keepsStore :: "('l, 'h) ConfigManager \<Rightarrow> jsError + ('l, 'h) ConfigManager" where
  "keepsStore c = Inr c"

definition writes :: "('l, 'h) ConfigManager \<Rightarrow> jsError option" where
  "writes c = None"

definition openWebpageReturns :: "jsError option" where
  "openWebpageReturns = None"

text \<open>An initialisation of the file types that is rejected, and a write that is.\<close>

definition initRejected :: "('l, 'h) ConfigManager \<Rightarrow> jsError + ('l, 'h) ConfigManager" where
  "initRejected c = Inl (Thrown (ascii ''no workspace''))"

definition writeRejected :: "('l, 'h) ConfigManager \<Rightarrow> jsError option" where
  "writeRejected c = Some (Thrown (ascii ''not writable''))"

section \<open>The clipboard observer\<close>

text \<open>
  \<open>clipBoardPolling\<close> keeps \<open>lastKnownClipboardContent\<close> (initially the empty string),
  starts an interval whose callback reads the clipboard, and then reads the clipboard once
  itself. \<open>intervalCallback\<close> is the callback of \<open>setInterval\<close>; \<open>firstRead\<close> is the code
  after it. Both take the content read and the last known content, and give the new last
  known content and what was posted.
\<close>

definition intervalCallback ::
  "jsstring \<Rightarrow> jsstring \<Rightarrow> jsstring \<times> ('l, 'h) posted list" where
  "intervalCallback clipboardContent lastKnownClipboardContent =
     (if clipboardContent \<noteq> lastKnownClipboardContent then
        (clipboardContent, [UpdateClipboardDataBox clipboardContent None])
      else (lastKnownClipboardContent, []))"

definition firstRead ::
  "(jsstring \<Rightarrow> nat) \<Rightarrow> jsstring \<Rightarrow> jsstring \<Rightarrow> jsstring \<times> ('l, 'h) posted list" where
  "firstRead getTokenCount clipboardContent lastKnownClipboardContent =
     (if clipboardContent \<noteq> lastKnownClipboardContent then
        (let tokenCount = getTokenCount clipboardContent;
             charCount = charCount clipboardContent
         in (clipboardContent,
             [UpdateClipboardDataBox clipboardContent (Some (tokenCount, charCount))]))
      else (lastKnownClipboardContent, []))"

text \<open>The interval's callbacks, one per content read, in the order they run.\<close>

fun intervals :: "jsstring list \<Rightarrow> jsstring \<Rightarrow> ('l, 'h) posted list" where
  "intervals [] lastKnownClipboardContent = []"
| "intervals (clipboardContent # rest) lastKnownClipboardContent =
     (let (l, out) = intervalCallback clipboardContent lastKnownClipboardContent
      in out @ intervals rest l)"

text \<open>
  One call of \<open>clipBoardPolling\<close>: the content of its own read, then the contents the
  interval reads every 800 ms (the first read completes before the first interval).
\<close>

definition clipBoardPolling ::
  "(jsstring \<Rightarrow> nat) \<Rightarrow> jsstring \<Rightarrow> jsstring list \<Rightarrow> ('l, 'h) posted list" where
  "clipBoardPolling getTokenCount firstContent laterContents =
     (let (l, out) = firstRead getTokenCount firstContent []
      in out @ intervals laterContents l)"

section \<open>The extract-code command\<close>






section \<open>Loading the webview's HTML\<close>

text \<open>
  A path is its list of segments. Reading a file gives its content or fails with an error
  that carries a message; the reader is the file system the extension runs on.
  \<open>asWebviewUri\<close> and \<open>String.prototype.replace\<close> belong to the host and to the language
  and are parameters; a pattern is a string or a regular expression (source and flags).
\<close>

type_synonym path = "string list"

datatype ioError = IOError (message: jsstring)

datatype pattern = Str string | RegExp string string

definition dquote :: string where
  "dquote = [CHR 0x22]"

definition backslash :: string where
  "backslash = [CHR 0x5C]"

text \<open>A file system on which every read fails.\<close>

definition noFiles :: "path \<Rightarrow> ioError + 'c" where
  "noFiles p = Inl (IOError (ascii ''ENOENT''))"

text \<open>
  \<open>getWebviewContent\<close> of \<open>src/extension.ts\<close>: \<open>fs.readFileSync\<close> is called outside
  any \<open>try\<close>, so its exception leaves the function.
\<close>

definition getWebviewContent ::
  "(path \<Rightarrow> ioError + jsstring) \<Rightarrow> (path \<Rightarrow> jsstring) \<Rightarrow>
   (pattern \<Rightarrow> jsstring \<Rightarrow> jsstring \<Rightarrow> jsstring) \<Rightarrow> path \<Rightarrow> ioError + jsstring" where
  "getWebviewContent readFileSync asWebviewUri replace extensionPath =
     (case readFileSync (extensionPath @ [''dist'', ''webview.html'']) of
        Inl e \<Rightarrow> Inl e
      | Inr content \<Rightarrow>
          (let scriptUri = asWebviewUri (extensionPath @ [''dist'', ''webview.js''])
           in Inr (replace (RegExp (''src='' @ dquote @ ''webview.js'' @ dquote) ''g'')
                     (ascii (''src='' @ dquote) @ scriptUri @ ascii dquote) content)))"

text \<open>
  \<open>getWebviewContent\<close> of the JavaScript extension: the read is inside \<open>try\<close>, and the
  \<open>catch\<close> returns an error page with the message.
\<close>

definition getWebviewContent_js ::
  "(path \<Rightarrow> ioError + jsstring) \<Rightarrow> (path \<Rightarrow> jsstring) \<Rightarrow>
   (pattern \<Rightarrow> jsstring \<Rightarrow> jsstring \<Rightarrow> jsstring) \<Rightarrow> path \<Rightarrow> jsstring" where
  "getWebviewContent_js readFileSync asWebviewUri replace extensionPath =
     (let basePath = extensionPath @ [''src'', ''webview'']
      in case readFileSync (basePath @ [''webview.html'']) of
           Inl error \<Rightarrow>
             ascii ''<html><body><h1>Error loading webview content</h1><p>'' @ message error
               @ ascii ''</p></body></html>''
         | Inr htmlContent \<Rightarrow>
             (let variablesCssUri = asWebviewUri (basePath @ [''styles'', ''variables.css'']);
                  webviewCssUri = asWebviewUri (basePath @ [''styles'', ''webview.css'']);
                  boxCssUri = asWebviewUri (basePath @ [''styles'', ''box.css'']);
                  htmlContent1 = replace (Str ''./styles/variables.css'') variablesCssUri htmlContent;
                  htmlContent2 = replace (Str ''./styles/webview.css'') webviewCssUri htmlContent1
              in replace (Str ''./styles/box.css'') boxCssUri htmlContent2))"

text \<open>
  \<open>composeWebViewContent\<close>: the whole body is inside \<open>try\<close>; the file is read as bytes
  and decoded (\<open>toString('utf8')\<close>, a parameter).
\<close>

definition composeWebViewContent ::
  "(path \<Rightarrow> ioError + 8 word list) \<Rightarrow> (8 word list \<Rightarrow> jsstring) \<Rightarrow> (path \<Rightarrow> jsstring) \<Rightarrow>
   (pattern \<Rightarrow> jsstring \<Rightarrow> jsstring \<Rightarrow> jsstring) \<Rightarrow> path \<Rightarrow> jsstring" where
  "composeWebViewContent readFile toStringUtf8 asWebviewUri replace extensionUri =
     (case readFile (extensionUri @ [''out'', ''webview'', ''webview.html'']) of
        Inl error \<Rightarrow> ascii ''Error loading webview content.''
      | Inr htmlContentUint8 \<Rightarrow>
          (let htmlContent = toStringUtf8 htmlContentUint8;
               styleUri = asWebviewUri (extensionUri @ [''out'', ''webview'', ''webview.css'']);
               scriptUri = asWebviewUri (extensionUri @ [''out'', ''webview'', ''webview.js'']);
               htmlContent1 =
                 replace (RegExp (''<link rel='' @ dquote @ ''stylesheet'' @ dquote @ '' href=''
                            @ dquote @ ''.'' @ backslash @ ''/webview.css'' @ dquote @ ''>'') [])
                   (ascii (''<link rel='' @ dquote @ ''stylesheet'' @ dquote @ '' href='' @ dquote)
                      @ styleUri @ ascii (dquote @ ''>''))
                   htmlContent
           in replace (RegExp (''<script src='' @ dquote @ ''webview.js'' @ dquote @ ''><''
                         @ backslash @ ''/script>'') [])
                (ascii (''<script src='' @ dquote) @ scriptUri @ ascii (dquote @ ''></script>''))
                htmlContent1))"

section \<open>The webview panel\<close>

text \<open>
  The editor keeps the panels of the extension that are open; \<open>createWebviewPanel\<close> opens
  a new one. A panel is named by a number. The extension keeps one module-level reference
  to a panel: \<open>currentPanel\<close> in the JavaScript extension, \<open>globalPanel\<close> in the
  TypeScript one.
\<close>

record host =
  panels :: "nat set"
  nextPanel :: nat

record jsExtension = host +
  currentPanel :: "nat option"

record tsExtension = host +
  globalPanel :: "nat option"

datatype ('l, 'h) hostCall =
    Reveal nat
  | CreateWebviewPanel nat
  | SetHtml nat jsstring
  | ComposeWebViewContent nat
  | PostTo nat "('l, 'h) posted"
  | ClipBoardPolling nat
  | ExecuteCommand string

definition createWebviewPanel :: "'a host_scheme \<Rightarrow> nat \<times> 'a host_scheme" where
  "createWebviewPanel h =
     (nextPanel h, h\<lparr>panels := insert (nextPanel h) (panels h), nextPanel := Suc (nextPanel h)\<rparr>)"

text \<open>
  \<open>showWebview\<close>: reveal the panel referred to, or create one, set its HTML and register
  the dispose callback.
\<close>

definition showWebview ::
  "(path \<Rightarrow> ioError + jsstring) \<Rightarrow> (path \<Rightarrow> jsstring) \<Rightarrow>
   (pattern \<Rightarrow> jsstring \<Rightarrow> jsstring \<Rightarrow> jsstring) \<Rightarrow> path \<Rightarrow>
   jsExtension \<Rightarrow> jsExtension \<times> (unit, unit) hostCall list" where
  "showWebview readFileSync asWebviewUri replace extensionPath s =
     (case currentPanel s of
        Some p \<Rightarrow> (s, [Reveal p])
      | None \<Rightarrow>
          (let (p, s1) = createWebviewPanel s;
               s2 = s1\<lparr>currentPanel := Some p\<rparr>;
               webviewHtml = getWebviewContent_js readFileSync asWebviewUri replace extensionPath
           in (s2, [CreateWebviewPanel p, SetHtml p webviewHtml])))"

text \<open>
  The panel \<open>p\<close> is closed: the editor drops it and runs the callback that \<open>showWebview\<close>
  registered with \<open>onDidDispose\<close>, which resets the reference.
\<close>

definition disposed_js :: "nat \<Rightarrow> jsExtension \<Rightarrow> jsExtension" where
  "disposed_js p s =
     (if p \<in> panels s then s\<lparr>panels := panels s - {p}, currentPanel := None\<rparr> else s)"

text \<open>
  \<open>openWebviewAndExplorerSidebar\<close>: reveal the panel referred to, or create one, register
  the dispose callback, start loading the HTML, set up the panel's actions (which post
  \<open>initConfig\<close>), start the clipboard polling, register the message handler and post
  \<open>initConfig\<close>; in both cases show the explorer.
\<close>

definition openWebviewAndExplorerSidebar ::
  "('l, 'h) ConfigManager \<Rightarrow> tsExtension \<Rightarrow> tsExtension \<times> ('l, 'h) hostCall list" where
  "openWebviewAndExplorerSidebar c s =
     (case globalPanel s of
        Some p \<Rightarrow> (s, [Reveal p, ExecuteCommand ''workbench.view.explorer''])
      | None \<Rightarrow>
          (let (p, s1) = createWebviewPanel s;
               s2 = s1\<lparr>globalPanel := Some p\<rparr>;
               initConfig = InitConfig (getFileTypes c) (getCompressionLevel c)
                              (getClipboardDataBoxHeight c)
           in (s2, [CreateWebviewPanel p, ComposeWebViewContent p, PostTo p initConfig,
                    ClipBoardPolling p, PostTo p initConfig,
                    ExecuteCommand ''workbench.view.explorer''])))"

definition disposed_ts :: "nat \<Rightarrow> tsExtension \<Rightarrow> tsExtension" where
  "disposed_ts p s =
     (if p \<in> panels s then s\<lparr>panels := panels s - {p}, globalPanel := None\<rparr> else s)"

text \<open>What can happen to the panel: the open operation is invoked, or a panel is closed.\<close>

datatype panelEvent = OpenInvoked | PanelClosed nat

definition activated_js :: jsExtension where
  "activated_js = \<lparr>panels = {}, nextPanel = 0, currentPanel = None\<rparr>"

definition activated_ts :: tsExtension where
  "activated_ts = \<lparr>panels = {}, nextPanel = 0, globalPanel = None\<rparr>"

fun run_js ::
  "(path \<Rightarrow> ioError + jsstring) \<Rightarrow> (path \<Rightarrow> jsstring) \<Rightarrow>
   (pattern \<Rightarrow> jsstring \<Rightarrow> jsstring \<Rightarrow> jsstring) \<Rightarrow> path \<Rightarrow>
   panelEvent list \<Rightarrow> jsExtension \<Rightarrow> jsExtension" where
  "run_js rd au rp ep [] s = s"
| "run_js rd au rp ep (OpenInvoked # es) s =
     run_js rd au rp ep es (fst (showWebview rd au rp ep s))"
| "run_js rd au rp ep (PanelClosed p # es) s = run_js rd au rp ep es (disposed_js p s)"

fun run_ts :: "('l, 'h) ConfigManager \<Rightarrow> panelEvent list \<Rightarrow> tsExtension \<Rightarrow> tsExtension" where
  "run_ts c [] s = s"
| "run_ts c (OpenInvoked # es) s = run_ts c es (fst (openWebviewAndExplorerSidebar c s))"
| "run_ts c (PanelClosed p # es) s = run_ts c es (disposed_ts p s)"

text \<open>
  The reference and the open panels agree: no reference and no panel, or a reference to
  the one panel that is open.
\<close>

definition onePanel_js :: "jsExtension \<Rightarrow> bool" where
  "onePanel_js s =
     (case currentPanel s of None \<Rightarrow> panels s = {} | Some p \<Rightarrow> panels s = {p})"

definition onePanel_ts :: "tsExtension \<Rightarrow> bool" where
  "onePanel_ts s =
     (case globalPanel s of None \<Rightarrow> panels s = {} | Some p \<Rightarrow> panels s = {p})"

text \<open>The panels a list of host calls creates, and the panels it reveals.\<close>

fun createdPanels :: "('l, 'h) hostCall list \<Rightarrow> nat list" where
  "createdPanels [] = []"
| "createdPanels (CreateWebviewPanel p # cs) = p # createdPanels cs"
| "createdPanels (_ # cs) = createdPanels cs"

fun revealedPanels :: "('l, 'h) hostCall list \<Rightarrow> nat list" where
  "revealedPanels [] = []"
| "revealedPanels (Reveal p # cs) = p # revealedPanels cs"
| "revealedPanels (_ # cs) = revealedPanels cs"

section \<open>The tree walker and the tree renderer\<close>

text \<open>
  Modelled from the spec: the TreeWalker, the FilterPolicy and the TreeRenderer (the
  engine behind \<open>extractCode\<close> and \<open>extractFileFolderTree\<close>) are not among the sources.
  The model follows sections 3, 4.1, 4.2 and 4.3 of the specification: the walk is
  depth-first; a file is included when its suffix, compared without case, is one of the
  configured file types, and a file with no suffix is not; a directory of the ignore set
  is left out with all below it; a directory with no included descendant is pruned; the
  children of a node are sorted with directories before files and each group
  alphabetically without case. The names of the ignore set are a parameter. The byte
  budget and the symbolic links of section 4.2 are left out: they take entries away and
  do not reorder any.
\<close>

datatype entry = FileEntry string | DirEntry string "entry list"

datatype TreeNode =
  Node (absolutePath: path) (displayName: string) (isDirectory: bool)
    (children: "TreeNode list") (included: bool)

definition toLowerChar :: "char \<Rightarrow> char" where
  "toLowerChar c =
     (if CHR ''A'' \<le> c \<and> c \<le> CHR ''Z'' then char_of (of_char c + (32::nat)) else c)"

definition toLowerCase :: "string \<Rightarrow> string" where
  "toLowerCase s = map toLowerChar s"

text \<open>The suffix of a name: from its last dot to its end, if it has a dot.\<close>

fun suffixOf :: "string \<Rightarrow> string option" where
  "suffixOf [] = None"
| "suffixOf (c # cs) =
     (case suffixOf cs of
        Some e \<Rightarrow> Some e
      | None \<Rightarrow> if c = CHR ''.'' then Some (c # cs) else None)"

text \<open>Modelled from the spec: \<open>FilterPolicy.shouldInclude\<close> (section 4.1).\<close>

definition shouldInclude :: "string list \<Rightarrow> string list \<Rightarrow> string \<Rightarrow> bool \<Rightarrow> bool" where
  "shouldInclude ignoreSet types name isDir =
     (if isDir then name \<notin> set ignoreSet
      else (case suffixOf name of
              None \<Rightarrow> False
            | Some e \<Rightarrow> toLowerCase e \<in> set (map toLowerCase types)))"

text \<open>
  Modelled from the spec: the order of the children (section 4.2), directories before
  files, then the name without case. The sort is stable (an insertion sort by the key).
\<close>

definition sortKey :: "TreeNode \<Rightarrow> bool \<times> string" where
  "sortKey n = (\<not> isDirectory n, toLowerCase (displayName n))"

definition sortChildren :: "TreeNode list \<Rightarrow> TreeNode list" where
  "sortChildren ns = sort_key sortKey ns"

text \<open>Modelled from the spec: \<open>TreeWalker.walk\<close> for one root (section 4.2).\<close>

fun walk :: "string list \<Rightarrow> string list \<Rightarrow> path \<Rightarrow> entry \<Rightarrow> TreeNode list" where
  "walk ignoreSet types parent (FileEntry name) =
     [Node (parent @ [name]) name False [] (shouldInclude ignoreSet types name False)]"
| "walk ignoreSet types parent (DirEntry name es) =
     (if shouldInclude ignoreSet types name True then
        (let cs = sortChildren (concat (map (walk ignoreSet types (parent @ [name])) es))
         in if list_ex included cs then [Node (parent @ [name]) name True cs True] else [])
      else [])"

text \<open>
  Modelled from the spec: \<open>TreeRenderer.render\<close> (section 4.3). It gives one line per
  node, depth-first: the connectors of the line (branch, last child, vertical bar, blank)
  and the label, which is the display name, with a trailing separator for a directory.
\<close>

datatype glyph = Branch | LastChild | Bar | Blank

definition label :: "TreeNode \<Rightarrow> string" where
  "label n = (if isDirectory n then displayName n @ ''/'' else displayName n)"

fun renderNode :: "glyph list \<Rightarrow> bool \<Rightarrow> TreeNode \<Rightarrow> (glyph list \<times> string) list"
  and renderNodes :: "glyph list \<Rightarrow> TreeNode list \<Rightarrow> (glyph list \<times> string) list" where
  "renderNode prefix isLast (Node p n d cs i) =
     (prefix @ [if isLast then LastChild else Branch], label (Node p n d cs i))
       # renderNodes (prefix @ [if isLast then Blank else Bar]) cs"
| "renderNodes prefix [] = []"
| "renderNodes prefix (c # cs) = renderNode prefix (cs = []) c @ renderNodes prefix cs"

definition render :: "TreeNode list \<Rightarrow> (glyph list \<times> string) list" where
  "render nodes = concat (map (\<lambda>r. ([], label r) # renderNodes [] (children r)) nodes)"

text \<open>
  Every node of a tree has its children in order: no child is followed by one that
  should come before it (a directory after a file, or a smaller name in the same group).
\<close>

definition precedes :: "TreeNode \<Rightarrow> TreeNode \<Rightarrow> bool" where
  "precedes a b =
     ((isDirectory a \<and> \<not> isDirectory b) \<or>
      (isDirectory a = isDirectory b \<and> toLowerCase (displayName a) \<le> toLowerCase (displayName b)))"

fun childrenOrdered :: "TreeNode \<Rightarrow> bool" where
  "childrenOrdered (Node p n d cs i) =
     (sorted_wrt precedes cs \<and> list_all childrenOrdered cs)"








section \<open>The token count\<close>

text \<open>
  Modelled from the spec: \<open>getTokenCount\<close> is imported from \<open>./operations\<close> and is not
  among the sources; the extension only calls it. Section 4.5 of the specification
  describes the token count as a deterministic segmentation of the text that is aware of
  whitespace and punctuation, not a subword tokenizer, and leaves the exact algorithm
  open. The model: whitespace separates tokens, every punctuation mark is a token, and
  every maximal run of other units is a token. Which units are whitespace and which are
  punctuation is a parameter, so that what is proved holds for every such choice.
\<close>

datatype unitClass = Whitespace | Punctuation | WordUnit

fun segments :: "(16 word \<Rightarrow> unitClass) \<Rightarrow> jsstring \<Rightarrow> jsstring \<Rightarrow> jsstring list" where
  "segments classify word [] = (if word = [] then [] else [word])"
| "segments classify word (u # us) =
     (case classify u of
        WordUnit \<Rightarrow> segments classify (word @ [u]) us
      | Punctuation \<Rightarrow> (if word = [] then [] else [word]) @ [u] # segments classify [] us
      | Whitespace \<Rightarrow> (if word = [] then [] else [word]) @ segments classify [] us)"

text \<open>
  Modelled from the spec: the Counter's \<open>tokenCount\<close> (section 4.5), the number of
  segments of the text.
\<close>

definition tokenCount :: "(16 word \<Rightarrow> unitClass) \<Rightarrow> jsstring \<Rightarrow> nat" where
  "tokenCount classify t = length (segments classify [] t)"

text \<open>A classification of the ASCII units, for evaluating the model.\<close>

definition asciiClass :: "16 word \<Rightarrow> unitClass" where
  "asciiClass u =
     (if u = 0x20 \<or> (0x09 \<le> u \<and> u \<le> 0x0D) then Whitespace
      else if (0x21 \<le> u \<and> u \<le> 0x2F) \<or> (0x3A \<le> u \<and> u \<le> 0x40)
              \<or> (0x5B \<le> u \<and> u \<le> 0x60) \<or> (0x7B \<le> u \<and> u \<le> 0x7E) then Punctuation
      else WordUnit)"

section \<open>The compression transform\<close>

text \<open>
  Modelled from the spec: the compression transform of the ContentAggregator is not
  among the sources (the extension only stores the level). Section 3 of the
  specification gives the levels: None is the text as it is; Light collapses runs of
  blank lines and strips trailing whitespace; Full additionally strips single-line and
  block comments with a heuristic that is not a parser, and collapses consecutive blank
  lines to one. The specification leaves the heuristic open. The model works on the
  lines of the text: trailing whitespace is taken off every line, and a blank line that
  follows a blank line is dropped. Comments are found in one scan from left to right:
  \<open>/*\<close> opens a block comment that ends after the next \<open>*/\<close> (or at the end of the text),
  \<open>//\<close> opens a comment that ends before the next line break.
\<close>

datatype CompressionLevel = NoneLevel | Light | Full

definition newline :: "16 word" where
  "newline = 0x0A"

definition slash :: "16 word" where
  "slash = 0x2F"

definition star :: "16 word" where
  "star = 0x2A"

definition isSpace :: "16 word \<Rightarrow> bool" where
  "isSpace u = (u = 0x20 \<or> u = 0x09 \<or> u = 0x0B \<or> u = 0x0C \<or> u = 0x0D)"

fun splitLines :: "jsstring \<Rightarrow> jsstring list" where
  "splitLines [] = [[]]"
| "splitLines (u # us) =
     (if u = newline then [] # splitLines us
      else (case splitLines us of [] \<Rightarrow> [[u]] | l # ls \<Rightarrow> (u # l) # ls))"

fun joinLines :: "jsstring list \<Rightarrow> jsstring" where
  "joinLines [] = []"
| "joinLines [l] = l"
| "joinLines (l # m # ls) = l @ newline # joinLines (m # ls)"

definition stripTrailing :: "jsstring \<Rightarrow> jsstring" where
  "stripTrailing l = rev (dropWhile isSpace (rev l))"

fun collapseBlank :: "jsstring list \<Rightarrow> jsstring list" where
  "collapseBlank [] = []"
| "collapseBlank [l] = [l]"
| "collapseBlank (l # m # ls) =
     (if l = [] \<and> m = [] then collapseBlank (m # ls) else l # collapseBlank (m # ls))"

text \<open>Modelled from the spec: the Light transform (section 3).\<close>

definition light :: "jsstring \<Rightarrow> jsstring" where
  "light t = joinLines (collapseBlank (map stripTrailing (splitLines t)))"

text \<open>The text after the end of the block comment that is open.\<close>

fun afterBlock :: "jsstring \<Rightarrow> jsstring" where
  "afterBlock [] = []"
| "afterBlock [u] = []"
| "afterBlock (u # v # us) = (if u = star \<and> v = slash then us else afterBlock (v # us))"

lemma length_afterBlock: "length (afterBlock us) \<le> length us"
  by (induction us rule: afterBlock.induct) auto

text \<open>Modelled from the spec: the comment stripping of the Full transform (section 3).\<close>

function stripComments :: "jsstring \<Rightarrow> jsstring" where
  "stripComments [] = []"
| "stripComments [u] = [u]"
| "stripComments (u # v # us) =
     (if u = slash \<and> v = star then stripComments (afterBlock us)
      else if u = slash \<and> v = slash then stripComments (dropWhile (\<lambda>w. w \<noteq> newline) us)
      else u # stripComments (v # us))"
  by pat_completeness auto
termination
proof (relation "measure length")
  show "wf (measure length)" by simp
next
  fix u v :: "16 word" and us :: jsstring
  show "(afterBlock us, u # v # us) \<in> measure length"
    using length_afterBlock [of us] by simp
next
  fix u v :: "16 word" and us :: jsstring
  show "(dropWhile (\<lambda>w. w \<noteq> newline) us, u # v # us) \<in> measure length"
    using length_dropWhile_le [of "\<lambda>w. w \<noteq> newline" us] by simp
next
  fix u v :: "16 word" and us :: jsstring
  show "(v # us, u # v # us) \<in> measure length" by simp
qed

text \<open>Modelled from the spec: the Full transform (section 3).\<close>

definition full :: "jsstring \<Rightarrow> jsstring" where
  "full t = light (stripComments t)"

text \<open>Modelled from the spec: \<open>compress(text, level)\<close> (sections 3 and 8).\<close>

fun compress :: "jsstring \<Rightarrow> CompressionLevel \<Rightarrow> jsstring" where
  "compress t NoneLevel = t"
| "compress t Light = light t"
| "compress t Full = full t"

text \<open>A text has a comment opener when \<open>/*\<close> or \<open>//\<close> occurs in it.\<close>

fun hasCommentStart :: "jsstring \<Rightarrow> bool" where
  "hasCommentStart [] = False"
| "hasCommentStart [u] = False"
| "hasCommentStart (u # v # us) =
     ((u = slash \<and> (v = star \<or> v = slash)) \<or> hasCommentStart (v # us))"

section \<open>Properties: the character count\<close>

lemma scalarCount_le_length: "scalarCount t \<le> length t"
  by (induction t rule: scalarCount.induct) auto

lemma isHighSurrogate_isSurrogate: "isHighSurrogate u \<Longrightarrow> isSurrogate u"
  unfolding isHighSurrogate_def isSurrogate_def
  by (auto simp: word_le_nat_alt)

lemma scalarCount_no_surrogate: "\<not> list_ex isSurrogate t \<Longrightarrow> scalarCount t = length t"
  by (induction t rule: scalarCount.induct) (auto dest: isHighSurrogate_isSurrogate)

lemma handleReceivedMessage_countChars:
  "command msg = ascii ''countChars'' \<Longrightarrow> text msg = Some t \<Longrightarrow>
   handleReceivedMessage tok init persist ow msg c =
     ([PostMessage (SetCharCount (length t)),
       PostMessage (ConfigUpdated (getCompressionLevel c) (getFileTypes c)
         (getClipboardDataBoxHeight c))], Inr c)"
  by (simp add: handleReceivedMessage_def handleCommand_def ascii_def charCount_def)

lemma handleReceivedMessage_requestCounts:
  "command msg = ascii ''requestCounts'' \<Longrightarrow> text msg = Some t \<Longrightarrow> tok (Some t) = Inr n \<Longrightarrow>
   handleReceivedMessage tok init persist ow msg c =
     ([PostMessage (SetTokenCount n),
       PostMessage (SetCharCount (length t)),
       PostMessage (ConfigUpdated (getCompressionLevel c) (getFileTypes c)
         (getClipboardDataBoxHeight c))], Inr c)"
  by (simp add: handleReceivedMessage_def handleCommand_def ascii_def charCount_def)

text \<open>
  Claim C1, as the code has it. The character count that the handler posts for the text
  of a \<open>countChars\<close> or a \<open>requestCounts\<close> message, and the one the clipboard observer
  posts, is the number of UTF-16 code units of the text (\<open>text.length\<close>). It is never
  below the number of Unicode scalar values, and it is that number when the text has no
  surrogate unit.
\<close>

theorem charCount_counts_utf16_units:
  "(command msg = ascii ''countChars'' \<and> text msg = Some t \<longrightarrow>
      handleReceivedMessage tok init persist ow msg c =
        ([PostMessage (SetCharCount (length t)),
          PostMessage (ConfigUpdated (getCompressionLevel c) (getFileTypes c)
            (getClipboardDataBoxHeight c))], Inr c))
   \<and> (command msg = ascii ''requestCounts'' \<and> text msg = Some t \<and> tok (Some t) = Inr n \<longrightarrow>
      handleReceivedMessage tok init persist ow msg c =
        ([PostMessage (SetTokenCount n),
          PostMessage (SetCharCount (length t)),
          PostMessage (ConfigUpdated (getCompressionLevel c) (getFileTypes c)
            (getClipboardDataBoxHeight c))], Inr c))
   \<and> charCount t = length t
   \<and> scalarCount t \<le> charCount t
   \<and> (\<not> list_ex isSurrogate t \<longrightarrow> charCount t = scalarCount t)"
  by (simp add: handleReceivedMessage_countChars handleReceivedMessage_requestCounts
      charCount_def scalarCount_le_length scalarCount_no_surrogate)

theorem charCount_counts_utf16_units_witness:
  "handleReceivedMessage countsUnits keepsStore writes openWebpageReturns
      \<lparr>command = ascii ''countChars'', level = 0::nat, fileTypes = [], height = 0::nat,
        text = Some (ascii ''abc''), fileType = []\<rparr>
      \<lparr>storedCompressionLevel = 0, storedFileTypes = [], storedClipboardDataBoxHeight = 0\<rparr>
    = ([PostMessage (SetCharCount 3), PostMessage (ConfigUpdated 0 [] 0)],
       Inr \<lparr>storedCompressionLevel = 0, storedFileTypes = [], storedClipboardDataBoxHeight = 0\<rparr>)
   \<and> handleReceivedMessage countsUnits keepsStore writes openWebpageReturns
      \<lparr>command = ascii ''requestCounts'', level = 0::nat, fileTypes = [], height = 0::nat,
        text = Some (ascii ''abc''), fileType = []\<rparr>
      \<lparr>storedCompressionLevel = 0, storedFileTypes = [], storedClipboardDataBoxHeight = 0\<rparr>
    = ([PostMessage (SetTokenCount 3), PostMessage (SetCharCount 3),
        PostMessage (ConfigUpdated 0 [] 0)],
       Inr \<lparr>storedCompressionLevel = 0, storedFileTypes = [], storedClipboardDataBoxHeight = 0\<rparr>)
   \<and> \<not> list_ex isSurrogate (ascii ''abc'')
   \<and> charCount (ascii ''abc'') = 3 \<and> scalarCount (ascii ''abc'') = 3"
  using charCount_counts_utf16_units
    [where msg = "\<lparr>command = ascii ''countChars'', level = 0::nat, fileTypes = [],
       height = 0::nat, text = Some (ascii ''abc''), fileType = []\<rparr>"
     and tok = countsUnits and init = keepsStore and persist = writes
     and ow = openWebpageReturns and t = "ascii ''abc''" and n = 3
     and c = "\<lparr>storedCompressionLevel = 0, storedFileTypes = [],
       storedClipboardDataBoxHeight = 0\<rparr>"]
    charCount_counts_utf16_units
    [where msg = "\<lparr>command = ascii ''requestCounts'', level = 0::nat, fileTypes = [],
       height = 0::nat, text = Some (ascii ''abc''), fileType = []\<rparr>"
     and tok = countsUnits and init = keepsStore and persist = writes
     and ow = openWebpageReturns and t = "ascii ''abc''" and n = 3
     and c = "\<lparr>storedCompressionLevel = 0, storedFileTypes = [],
       storedClipboardDataBoxHeight = 0\<rparr>"]
  by (simp add: ascii_def countsUnits_def unitsAsTokens_def isSurrogate_def charCount_def
      getCompressionLevel_def getFileTypes_def getClipboardDataBoxHeight_def)

text \<open>
  The claim as the specification words it fails on a character outside the Basic
  Multilingual Plane: U+1F600 is the surrogate pair D83D DE00, one scalar value, and the
  handler posts the count 2.
\<close>

theorem charCount_surrogate_pair_counterexample:
  "handleReceivedMessage countsUnits keepsStore writes openWebpageReturns
      \<lparr>command = ascii ''countChars'', level = 0::nat, fileTypes = [], height = 0::nat,
        text = Some [0xD83D, 0xDE00], fileType = []\<rparr>
      \<lparr>storedCompressionLevel = 0, storedFileTypes = [], storedClipboardDataBoxHeight = 0\<rparr>
    = ([PostMessage (SetCharCount 2), PostMessage (ConfigUpdated 0 [] 0)],
       Inr \<lparr>storedCompressionLevel = 0, storedFileTypes = [], storedClipboardDataBoxHeight = 0\<rparr>)
   \<and> scalarCount [0xD83D, 0xDE00] = 1
   \<and> charCount [0xD83D, 0xDE00] \<noteq> scalarCount [0xD83D, 0xDE00]"
  by (simp add: handleReceivedMessage_def handleCommand_def ascii_def charCount_def
      getCompressionLevel_def getFileTypes_def getClipboardDataBoxHeight_def
      isHighSurrogate_def isLowSurrogate_def)

section \<open>Properties: the file types\<close>

lemma indexOf_absent: "x \<notin> set xs \<Longrightarrow> indexOf xs x = - 1"
  by (induction xs) (auto simp: Let_def)

lemma indexOf_present: "x \<in> set xs \<Longrightarrow> 0 \<le> indexOf xs x"
  by (induction xs) (auto simp: Let_def)

lemma indexOf_found: "(indexOf xs x > - 1) = (x \<in> set xs)"
proof (cases "x \<in> set xs")
  case True
  then show ?thesis using indexOf_present [of x xs] by simp
next
  case False
  then show ?thesis by (simp add: indexOf_absent)
qed

lemma splice1_indexOf: "x \<in> set xs \<Longrightarrow> splice1 (nat (indexOf xs x)) xs = remove1 x xs"
proof (induction xs)
  case Nil
  then show ?case by simp
next
  case (Cons y ys)
  show ?case
  proof (cases "y = x")
    case True
    then show ?thesis by (simp add: splice1_def)
  next
    case False
    with Cons.prems have mem: "x \<in> set ys" by simp
    then have pos: "indexOf ys x > - 1" by (simp add: indexOf_found)
    then have "nat (indexOf ys x + 1) = Suc (nat (indexOf ys x))" by simp
    with False pos Cons.IH [OF mem] show ?thesis
      by (simp add: splice1_def Let_def)
  qed
qed

lemma handleReceivedMessage_outcome:
  "snd (handleReceivedMessage tok init persist ow msg c) =
     snd (handleCommand tok init persist ow msg c)"
  by (simp add: handleReceivedMessage_def split: prod.split sum.split)

lemma written_Inr: "written persist c = Inr c' \<Longrightarrow> c' = c"
  by (simp add: written_def split: option.splits)

lemma updateFileTypes_outcome:
  "command msg = ascii ''updateFileTypes'' \<Longrightarrow>
   snd (handleCommand tok init persist ow msg c) =
     written persist (c\<lparr>storedFileTypes :=
       (if fileType msg \<in> set (getFileTypes c) then remove1 (fileType msg) (getFileTypes c)
        else getFileTypes c @ [fileType msg])\<rparr>)"
  by (simp add: handleCommand_def ascii_def Let_def setFileTypes_def push_def indexOf_found
      splice1_indexOf split: sum.split)

lemma updateFileTypes_toggles:
  assumes "command msg = ascii ''updateFileTypes''"
    and "snd (handleReceivedMessage tok init persist ow msg c) = Inr c'"
  shows "getFileTypes c' =
     (if fileType msg \<in> set (getFileTypes c) then remove1 (fileType msg) (getFileTypes c)
      else getFileTypes c @ [fileType msg])"
proof -
  from assms have "written persist (c\<lparr>storedFileTypes :=
       (if fileType msg \<in> set (getFileTypes c) then remove1 (fileType msg) (getFileTypes c)
        else getFileTypes c @ [fileType msg])\<rparr>) = Inr c'"
    by (simp add: handleReceivedMessage_outcome updateFileTypes_outcome)
  then have "c' = c\<lparr>storedFileTypes :=
       (if fileType msg \<in> set (getFileTypes c) then remove1 (fileType msg) (getFileTypes c)
        else getFileTypes c @ [fileType msg])\<rparr>"
    by (rule written_Inr)
  then show ?thesis by (simp add: getFileTypes_def)
qed

lemma updateFileTypes_completes:
  assumes "command msg = ascii ''updateFileTypes''"
    and "persist (c\<lparr>storedFileTypes :=
       (if fileType msg \<in> set (getFileTypes c) then remove1 (fileType msg) (getFileTypes c)
        else getFileTypes c @ [fileType msg])\<rparr>) = None"
  shows "snd (handleReceivedMessage tok init persist ow msg c) =
     Inr (c\<lparr>storedFileTypes :=
       (if fileType msg \<in> set (getFileTypes c) then remove1 (fileType msg) (getFileTypes c)
        else getFileTypes c @ [fileType msg])\<rparr>)"
  using assms
  by (simp add: handleReceivedMessage_outcome updateFileTypes_outcome written_def)

lemma setFileTypes_replaces:
  assumes "command msg = ascii ''setFileTypes''"
    and "snd (handleReceivedMessage tok init persist ow msg c) = Inr c'"
  shows "getFileTypes c' = fileTypes msg"
proof -
  from assms have "written persist (c\<lparr>storedFileTypes := fileTypes msg\<rparr>) = Inr c'"
    by (simp add: handleReceivedMessage_outcome handleCommand_def ascii_def setFileTypes_def)
  then have "c' = c\<lparr>storedFileTypes := fileTypes msg\<rparr>" by (rule written_Inr)
  then show ?thesis by (simp add: getFileTypes_def)
qed

lemma other_commands_keep_fileTypes:
  assumes "command msg \<noteq> ascii ''updateFileTypes''"
    and "command msg \<noteq> ascii ''setFileTypes''"
    and "command msg \<noteq> ascii ''refreshFileTypes''"
    and "snd (handleReceivedMessage tok init persist ow msg c) = Inr c'"
  shows "getFileTypes c' = getFileTypes c"
proof -
  from assms have out: "snd (handleCommand tok init persist ow msg c) = Inr c'"
    by (simp add: handleReceivedMessage_outcome)
  consider
      (lvl) "command msg = ascii ''setCompressionLevel''"
    | (hgt) "command msg = ascii ''setClipboardDataBoxHeight''"
    | (rest) "command msg \<noteq> ascii ''setCompressionLevel''"
        "command msg \<noteq> ascii ''setClipboardDataBoxHeight''"
    by blast
  then show ?thesis
  proof cases
    case lvl
    with out have "written persist (c\<lparr>storedCompressionLevel := level msg\<rparr>) = Inr c'"
      by (simp add: handleCommand_def ascii_def setCompressionLevel_def)
    then have "c' = c\<lparr>storedCompressionLevel := level msg\<rparr>" by (rule written_Inr)
    then show ?thesis by (simp add: getFileTypes_def)
  next
    case hgt
    with out have "written persist (c\<lparr>storedClipboardDataBoxHeight := height msg\<rparr>) = Inr c'"
      by (simp add: handleCommand_def ascii_def setClipboardDataBoxHeight_def)
    then have "c' = c\<lparr>storedClipboardDataBoxHeight := height msg\<rparr>" by (rule written_Inr)
    then show ?thesis by (simp add: getFileTypes_def)
  next
    case rest
    with assms(1-3) out have "c' = c"
      by (auto simp: handleCommand_def split: if_splits option.splits sum.splits)
    then show ?thesis by simp
  qed
qed

text \<open>
  Claim C2, as the code has it. When the handler has handled an \<open>updateFileTypes\<close>
  message (and it does when the write of the store succeeds), the received entry has
  been taken out of the set if it was there and put in, as received, if it was not; so
  the invariant (every entry non-empty, lower-cased, beginning with a dot) is kept when
  the received entry satisfies it itself. \<open>setFileTypes\<close> replaces the set by the received
  list. Every command other than these two and \<open>refreshFileTypes\<close> leaves the set as it
  is.
\<close>

theorem updateFileTypes_keeps_invariant_of_valid_entry:
  "(command msg = ascii ''updateFileTypes''
        \<and> snd (handleReceivedMessage tok init persist ow msg c) = Inr c' \<longrightarrow>
      getFileTypes c' =
        (if fileType msg \<in> set (getFileTypes c) then remove1 (fileType msg) (getFileTypes c)
         else getFileTypes c @ [fileType msg]))
   \<and> (command msg = ascii ''updateFileTypes''
        \<and> persist (c\<lparr>storedFileTypes :=
             (if fileType msg \<in> set (getFileTypes c)
              then remove1 (fileType msg) (getFileTypes c)
              else getFileTypes c @ [fileType msg])\<rparr>) = None \<longrightarrow>
      snd (handleReceivedMessage tok init persist ow msg c) =
        Inr (c\<lparr>storedFileTypes :=
             (if fileType msg \<in> set (getFileTypes c)
              then remove1 (fileType msg) (getFileTypes c)
              else getFileTypes c @ [fileType msg])\<rparr>))
   \<and> (command msg = ascii ''updateFileTypes''
        \<and> snd (handleReceivedMessage tok init persist ow msg c) = Inr c'
        \<and> fileTypeSetInvariant (getFileTypes c) \<and> validFileType (fileType msg) \<longrightarrow>
      fileTypeSetInvariant (getFileTypes c'))
   \<and> (command msg = ascii ''setFileTypes''
        \<and> snd (handleReceivedMessage tok init persist ow msg c) = Inr c' \<longrightarrow>
      getFileTypes c' = fileTypes msg)
   \<and> (command msg \<noteq> ascii ''updateFileTypes'' \<and> command msg \<noteq> ascii ''setFileTypes''
        \<and> command msg \<noteq> ascii ''refreshFileTypes''
        \<and> snd (handleReceivedMessage tok init persist ow msg c) = Inr c' \<longrightarrow>
      getFileTypes c' = getFileTypes c)"
proof (intro conjI)
  show "command msg = ascii ''updateFileTypes''
        \<and> snd (handleReceivedMessage tok init persist ow msg c) = Inr c' \<longrightarrow>
      getFileTypes c' =
        (if fileType msg \<in> set (getFileTypes c) then remove1 (fileType msg) (getFileTypes c)
         else getFileTypes c @ [fileType msg])"
    by (intro impI) (elim conjE, rule updateFileTypes_toggles, assumption+)
next
  show "command msg = ascii ''updateFileTypes''
        \<and> persist (c\<lparr>storedFileTypes :=
             (if fileType msg \<in> set (getFileTypes c)
              then remove1 (fileType msg) (getFileTypes c)
              else getFileTypes c @ [fileType msg])\<rparr>) = None \<longrightarrow>
      snd (handleReceivedMessage tok init persist ow msg c) =
        Inr (c\<lparr>storedFileTypes :=
             (if fileType msg \<in> set (getFileTypes c)
              then remove1 (fileType msg) (getFileTypes c)
              else getFileTypes c @ [fileType msg])\<rparr>)"
    by (intro impI) (elim conjE, rule updateFileTypes_completes, assumption+)
next
  show "command msg = ascii ''updateFileTypes''
        \<and> snd (handleReceivedMessage tok init persist ow msg c) = Inr c'
        \<and> fileTypeSetInvariant (getFileTypes c) \<and> validFileType (fileType msg) \<longrightarrow>
      fileTypeSetInvariant (getFileTypes c')"
  proof
    assume a: "command msg = ascii ''updateFileTypes''
        \<and> snd (handleReceivedMessage tok init persist ow msg c) = Inr c'
        \<and> fileTypeSetInvariant (getFileTypes c) \<and> validFileType (fileType msg)"
    then have cmd: "command msg = ascii ''updateFileTypes''"
      and fin: "snd (handleReceivedMessage tok init persist ow msg c) = Inr c'"
      by simp_all
    have eq: "getFileTypes c' =
        (if fileType msg \<in> set (getFileTypes c) then remove1 (fileType msg) (getFileTypes c)
         else getFileTypes c @ [fileType msg])"
      by (rule updateFileTypes_toggles [OF cmd fin])
    from a have "\<forall>e \<in> set (getFileTypes c). validFileType e"
      by (simp add: fileTypeSetInvariant_def list_all_iff)
    moreover have "set (remove1 (fileType msg) (getFileTypes c)) \<subseteq> set (getFileTypes c)"
      by (rule set_remove1_subset)
    ultimately show "fileTypeSetInvariant (getFileTypes c')"
      using a eq by (auto simp: fileTypeSetInvariant_def list_all_iff)
  qed
next
  show "command msg = ascii ''setFileTypes''
        \<and> snd (handleReceivedMessage tok init persist ow msg c) = Inr c' \<longrightarrow>
      getFileTypes c' = fileTypes msg"
    by (intro impI) (elim conjE, rule setFileTypes_replaces, assumption+)
next
  show "command msg \<noteq> ascii ''updateFileTypes'' \<and> command msg \<noteq> ascii ''setFileTypes''
        \<and> command msg \<noteq> ascii ''refreshFileTypes''
        \<and> snd (handleReceivedMessage tok init persist ow msg c) = Inr c' \<longrightarrow>
      getFileTypes c' = getFileTypes c"
    by (intro impI) (elim conjE, rule other_commands_keep_fileTypes, assumption+)
qed

theorem updateFileTypes_keeps_invariant_of_valid_entry_witness:
  "fileTypeSetInvariant (getFileTypes
      \<lparr>storedCompressionLevel = 0::nat, storedFileTypes = [ascii ''.ts''],
        storedClipboardDataBoxHeight = 0::nat\<rparr>)
   \<and> validFileType (ascii ''.md'')
   \<and> snd (handleReceivedMessage countsUnits keepsStore writes openWebpageReturns
      \<lparr>command = ascii ''updateFileTypes'', level = 0::nat, fileTypes = [], height = 0::nat,
        text = None, fileType = ascii ''.md''\<rparr>
      \<lparr>storedCompressionLevel = 0, storedFileTypes = [ascii ''.ts''],
        storedClipboardDataBoxHeight = 0\<rparr>)
     = Inr \<lparr>storedCompressionLevel = 0, storedFileTypes = [ascii ''.ts'', ascii ''.md''],
        storedClipboardDataBoxHeight = 0\<rparr>
   \<and> fileTypeSetInvariant (getFileTypes
      \<lparr>storedCompressionLevel = 0::nat, storedFileTypes = [ascii ''.ts'', ascii ''.md''],
        storedClipboardDataBoxHeight = 0::nat\<rparr>)
   \<and> snd (handleReceivedMessage countsUnits keepsStore writes openWebpageReturns
      \<lparr>command = ascii ''setFileTypes'', level = 0::nat, fileTypes = [ascii ''.py''],
        height = 0::nat, text = None, fileType = []\<rparr>
      \<lparr>storedCompressionLevel = 0, storedFileTypes = [ascii ''.ts''],
        storedClipboardDataBoxHeight = 0\<rparr>)
     = Inr \<lparr>storedCompressionLevel = 0, storedFileTypes = [ascii ''.py''],
        storedClipboardDataBoxHeight = 0\<rparr>
   \<and> snd (handleReceivedMessage countsUnits keepsStore writes openWebpageReturns
      \<lparr>command = ascii ''countChars'', level = 0::nat, fileTypes = [], height = 0::nat,
        text = Some [], fileType = []\<rparr>
      \<lparr>storedCompressionLevel = 0, storedFileTypes = [ascii ''.ts''],
        storedClipboardDataBoxHeight = 0\<rparr>)
     = Inr \<lparr>storedCompressionLevel = 0, storedFileTypes = [ascii ''.ts''],
        storedClipboardDataBoxHeight = 0\<rparr>"
  using updateFileTypes_keeps_invariant_of_valid_entry
    [where msg = "\<lparr>command = ascii ''updateFileTypes'', level = 0::nat, fileTypes = [],
       height = 0::nat, text = None, fileType = ascii ''.md''\<rparr>"
     and tok = countsUnits and init = keepsStore and persist = writes
     and ow = openWebpageReturns
     and c = "\<lparr>storedCompressionLevel = 0, storedFileTypes = [ascii ''.ts''],
       storedClipboardDataBoxHeight = 0\<rparr>"
     and c' = "\<lparr>storedCompressionLevel = 0, storedFileTypes = [ascii ''.ts'', ascii ''.md''],
       storedClipboardDataBoxHeight = 0\<rparr>"]
    updateFileTypes_keeps_invariant_of_valid_entry
    [where msg = "\<lparr>command = ascii ''setFileTypes'', level = 0::nat,
       fileTypes = [ascii ''.py''], height = 0::nat, text = None, fileType = []\<rparr>"
     and tok = countsUnits and init = keepsStore and persist = writes
     and ow = openWebpageReturns
     and c = "\<lparr>storedCompressionLevel = 0, storedFileTypes = [ascii ''.ts''],
       storedClipboardDataBoxHeight = 0\<rparr>"
     and c' = "\<lparr>storedCompressionLevel = 0, storedFileTypes = [ascii ''.py''],
       storedClipboardDataBoxHeight = 0\<rparr>"]
    updateFileTypes_keeps_invariant_of_valid_entry
    [where msg = "\<lparr>command = ascii ''countChars'', level = 0::nat, fileTypes = [],
       height = 0::nat, text = Some [], fileType = []\<rparr>"
     and tok = countsUnits and init = keepsStore and persist = writes
     and ow = openWebpageReturns
     and c = "\<lparr>storedCompressionLevel = 0, storedFileTypes = [ascii ''.ts''],
       storedClipboardDataBoxHeight = 0\<rparr>"
     and c' = "\<lparr>storedCompressionLevel = 0, storedFileTypes = [ascii ''.ts''],
       storedClipboardDataBoxHeight = 0\<rparr>"]
  by (simp add: handleReceivedMessage_def handleCommand_def ascii_def Let_def writes_def
      written_def setFileTypes_def splice1_def push_def getFileTypes_def
      fileTypeSetInvariant_def validFileType_def isUpperAscii_def)

text \<open>
  The claim as the specification words it fails on an entry that is not normalised: on a
  set that satisfies the invariant, the toggle for \<open>TS\<close> stores \<open>TS\<close>, which has no dot
  in front and is in upper case.
\<close>

theorem updateFileTypes_invariant_counterexample:
  "fileTypeSetInvariant (getFileTypes
      \<lparr>storedCompressionLevel = 0::nat, storedFileTypes = [ascii ''.ts''],
        storedClipboardDataBoxHeight = 0::nat\<rparr>)
   \<and> snd (handleReceivedMessage countsUnits keepsStore writes openWebpageReturns
      \<lparr>command = ascii ''updateFileTypes'', level = 0::nat, fileTypes = [], height = 0::nat,
        text = None, fileType = ascii ''TS''\<rparr>
      \<lparr>storedCompressionLevel = 0, storedFileTypes = [ascii ''.ts''],
        storedClipboardDataBoxHeight = 0\<rparr>)
     = Inr \<lparr>storedCompressionLevel = 0, storedFileTypes = [ascii ''.ts'', ascii ''TS''],
        storedClipboardDataBoxHeight = 0\<rparr>
   \<and> \<not> fileTypeSetInvariant (getFileTypes
      \<lparr>storedCompressionLevel = 0::nat, storedFileTypes = [ascii ''.ts'', ascii ''TS''],
        storedClipboardDataBoxHeight = 0::nat\<rparr>)"
  by (simp add: handleReceivedMessage_def handleCommand_def ascii_def Let_def writes_def
      written_def getFileTypes_def setFileTypes_def splice1_def push_def
      fileTypeSetInvariant_def validFileType_def isUpperAscii_def)

section \<open>Properties: the clipboard observer\<close>

lemma intervalCallback_posts:
  "snd (intervalCallback content lastKnown) =
     (if content = lastKnown then [] else [UpdateClipboardDataBox content None])"
  by (simp add: intervalCallback_def)

lemma firstRead_posts:
  "snd (firstRead tok content lastKnown) =
     (if content = lastKnown then []
      else [UpdateClipboardDataBox content (Some (tok content, length content))])"
  by (simp add: firstRead_def charCount_def)

text \<open>
  Claim C3, evaluated on the code. The clipboard holds \<open>a\<close> when the polling starts and
  \<open>b\<close> at the next two intervals. The first read posts \<open>a\<close> with its token count and
  character count; the interval that sees the change to \<open>b\<close> posts \<open>b\<close> with no counts;
  the interval that sees \<open>b\<close> again posts nothing.
\<close>

theorem clipBoardPolling_interval_posts_no_counts:
  "clipBoardPolling unitsAsTokens (ascii ''a'') [ascii ''b'', ascii ''b''] =
     [UpdateClipboardDataBox (ascii ''a'') (Some (1, 1)),
      UpdateClipboardDataBox (ascii ''b'') None]"
  by (simp add: clipBoardPolling_def firstRead_def intervalCallback_def unitsAsTokens_def
      charCount_def ascii_def)

section \<open>Properties: the extract-code command\<close>








section \<open>Properties: loading the webview's HTML\<close>

text \<open>
  Claim C5, evaluated on the code. When the file cannot be read, \<open>getWebviewContent\<close> of
  \<open>src/extension.ts\<close> lets the error of \<open>readFileSync\<close> out, while the
  \<open>getWebviewContent\<close> of the JavaScript extension returns its error page and
  \<open>composeWebViewContent\<close> returns its fallback string.
\<close>

theorem getWebviewContent_throws_on_unreadable_file:
  "getWebviewContent noFiles asWebviewUri replace extensionPath = Inl (IOError (ascii ''ENOENT''))
   \<and> getWebviewContent_js noFiles asWebviewUri replace extensionPath =
       ascii ''<html><body><h1>Error loading webview content</h1><p>ENOENT</p></body></html>''
   \<and> composeWebViewContent noFiles toStringUtf8 asWebviewUri replace extensionPath =
       ascii ''Error loading webview content.''"
  by (simp add: getWebviewContent_def getWebviewContent_js_def composeWebViewContent_def
      noFiles_def ascii_def)

section \<open>Properties: the webview panel\<close>

lemma openWebviewAndExplorerSidebar_onePanel:
  "onePanel_ts s \<Longrightarrow> onePanel_ts (fst (openWebviewAndExplorerSidebar c s))"
  by (auto simp: onePanel_ts_def openWebviewAndExplorerSidebar_def createWebviewPanel_def
      Let_def split: option.splits)

lemma disposed_ts_onePanel: "onePanel_ts s \<Longrightarrow> onePanel_ts (disposed_ts p s)"
  by (auto simp: onePanel_ts_def disposed_ts_def split: option.splits)

lemma run_ts_onePanel: "onePanel_ts s \<Longrightarrow> onePanel_ts (run_ts c evs s)"
proof (induction evs arbitrary: s)
  case Nil
  then show ?case by simp
next
  case (Cons e evs)
  show ?case
  proof (cases e)
    case OpenInvoked
    with Cons show ?thesis by (simp add: openWebviewAndExplorerSidebar_onePanel)
  next
    case (PanelClosed p)
    with Cons show ?thesis by (simp add: disposed_ts_onePanel)
  qed
qed

lemma showWebview_onePanel:
  "onePanel_js s \<Longrightarrow> onePanel_js (fst (showWebview rd au rp ep s))"
  by (auto simp: onePanel_js_def showWebview_def createWebviewPanel_def Let_def
      split: option.splits)

lemma disposed_js_onePanel: "onePanel_js s \<Longrightarrow> onePanel_js (disposed_js p s)"
  by (auto simp: onePanel_js_def disposed_js_def split: option.splits)

lemma run_js_onePanel: "onePanel_js s \<Longrightarrow> onePanel_js (run_js rd au rp ep evs s)"
proof (induction evs arbitrary: s)
  case Nil
  then show ?case by simp
next
  case (Cons e evs)
  show ?case
  proof (cases e)
    case OpenInvoked
    with Cons show ?thesis by (simp add: showWebview_onePanel)
  next
    case (PanelClosed p)
    with Cons show ?thesis by (simp add: disposed_js_onePanel)
  qed
qed

lemma onePanel_ts_card: "onePanel_ts s \<Longrightarrow> finite (panels s) \<and> card (panels s) \<le> 1"
  by (auto simp: onePanel_ts_def split: option.splits)

lemma onePanel_js_card: "onePanel_js s \<Longrightarrow> finite (panels s) \<and> card (panels s) \<le> 1"
  by (auto simp: onePanel_js_def split: option.splits)

lemma openWebviewAndExplorerSidebar_step:
  "onePanel_ts s \<Longrightarrow>
   (case globalPanel s of
      Some p \<Rightarrow>
        openWebviewAndExplorerSidebar c s =
          (s, [Reveal p, ExecuteCommand ''workbench.view.explorer''])
        \<and> globalPanel (disposed_ts p s) = None \<and> panels (disposed_ts p s) = {}
    | None \<Rightarrow>
        createdPanels (snd (openWebviewAndExplorerSidebar c s)) = [nextPanel s]
        \<and> revealedPanels (snd (openWebviewAndExplorerSidebar c s)) = []
        \<and> panels (fst (openWebviewAndExplorerSidebar c s)) = {nextPanel s}
        \<and> globalPanel (fst (openWebviewAndExplorerSidebar c s)) = Some (nextPanel s))"
  by (auto simp: onePanel_ts_def openWebviewAndExplorerSidebar_def createWebviewPanel_def
      disposed_ts_def Let_def split: option.splits)

lemma showWebview_step:
  "onePanel_js s \<Longrightarrow>
   (case currentPanel s of
      Some p \<Rightarrow>
        showWebview rd au rp ep s = (s, [Reveal p])
        \<and> currentPanel (disposed_js p s) = None \<and> panels (disposed_js p s) = {}
    | None \<Rightarrow>
        createdPanels (snd (showWebview rd au rp ep s)) = [nextPanel s]
        \<and> revealedPanels (snd (showWebview rd au rp ep s)) = []
        \<and> panels (fst (showWebview rd au rp ep s)) = {nextPanel s}
        \<and> currentPanel (fst (showWebview rd au rp ep s)) = Some (nextPanel s))"
  by (auto simp: onePanel_js_def showWebview_def createWebviewPanel_def disposed_js_def
      Let_def split: option.splits)

lemma activated_ts_onePanel: "onePanel_ts activated_ts"
  by (simp add: onePanel_ts_def activated_ts_def)

lemma activated_js_onePanel: "onePanel_js activated_js"
  by (simp add: onePanel_js_def activated_js_def)

lemma disposed_ts_clears:
  "onePanel_ts s \<Longrightarrow> p \<in> panels s \<Longrightarrow>
   globalPanel (disposed_ts p s) = None \<and> panels (disposed_ts p s) = {}"
  by (auto simp: onePanel_ts_def disposed_ts_def split: option.splits)

lemma disposed_js_clears:
  "onePanel_js s \<Longrightarrow> p \<in> panels s \<Longrightarrow>
   currentPanel (disposed_js p s) = None \<and> panels (disposed_js p s) = {}"
  by (auto simp: onePanel_js_def disposed_js_def split: option.splits)

lemma run_ts_example:
  "run_ts c [OpenInvoked, OpenInvoked, PanelClosed 0, OpenInvoked] activated_ts =
     \<lparr>panels = {1}, nextPanel = 2, globalPanel = Some 1\<rparr>"
  by (simp add: openWebviewAndExplorerSidebar_def createWebviewPanel_def disposed_ts_def
      activated_ts_def Let_def)

lemma run_js_example:
  "run_js rd au rp ep [OpenInvoked, OpenInvoked, PanelClosed 0, OpenInvoked] activated_js =
     \<lparr>panels = {1}, nextPanel = 2, currentPanel = Some 1\<rparr>"
  by (simp add: showWebview_def createWebviewPanel_def disposed_js_def activated_js_def Let_def)

text \<open>
  Claim C9. After any sequence of invocations of the open operation and of panels being
  closed, starting from the activation of the extension, at most one panel is open, and
  the reference is to it (or is undefined when none is open). Invoked then, the open
  operation reveals the panel referred to and creates none, or, when the reference is
  undefined, creates exactly one panel, which is then the only one open. Closing the
  panel referred to leaves no panel open and the reference undefined. This holds for
  \<open>openWebviewAndExplorerSidebar\<close> and for \<open>showWebview\<close>.
\<close>

theorem at_most_one_webview_panel:
  "onePanel_ts (run_ts c evs activated_ts)
   \<and> finite (panels (run_ts c evs activated_ts))
   \<and> card (panels (run_ts c evs activated_ts)) \<le> 1
   \<and> (case globalPanel (run_ts c evs activated_ts) of
        Some p \<Rightarrow>
          openWebviewAndExplorerSidebar c (run_ts c evs activated_ts) =
            (run_ts c evs activated_ts, [Reveal p, ExecuteCommand ''workbench.view.explorer''])
          \<and> globalPanel (disposed_ts p (run_ts c evs activated_ts)) = None
          \<and> panels (disposed_ts p (run_ts c evs activated_ts)) = {}
      | None \<Rightarrow>
          createdPanels (snd (openWebviewAndExplorerSidebar c (run_ts c evs activated_ts))) =
            [nextPanel (run_ts c evs activated_ts)]
          \<and> revealedPanels (snd (openWebviewAndExplorerSidebar c (run_ts c evs activated_ts))) = []
          \<and> panels (fst (openWebviewAndExplorerSidebar c (run_ts c evs activated_ts))) =
            {nextPanel (run_ts c evs activated_ts)}
          \<and> globalPanel (fst (openWebviewAndExplorerSidebar c (run_ts c evs activated_ts))) =
            Some (nextPanel (run_ts c evs activated_ts)))
   \<and> onePanel_js (run_js rd au rp ep evs activated_js)
   \<and> finite (panels (run_js rd au rp ep evs activated_js))
   \<and> card (panels (run_js rd au rp ep evs activated_js)) \<le> 1
   \<and> (case currentPanel (run_js rd au rp ep evs activated_js) of
        Some p \<Rightarrow>
          showWebview rd au rp ep (run_js rd au rp ep evs activated_js) =
            (run_js rd au rp ep evs activated_js, [Reveal p])
          \<and> currentPanel (disposed_js p (run_js rd au rp ep evs activated_js)) = None
          \<and> panels (disposed_js p (run_js rd au rp ep evs activated_js)) = {}
      | None \<Rightarrow>
          createdPanels (snd (showWebview rd au rp ep (run_js rd au rp ep evs activated_js))) =
            [nextPanel (run_js rd au rp ep evs activated_js)]
          \<and> revealedPanels (snd (showWebview rd au rp ep (run_js rd au rp ep evs activated_js))) = []
          \<and> panels (fst (showWebview rd au rp ep (run_js rd au rp ep evs activated_js))) =
            {nextPanel (run_js rd au rp ep evs activated_js)}
          \<and> currentPanel (fst (showWebview rd au rp ep (run_js rd au rp ep evs activated_js))) =
            Some (nextPanel (run_js rd au rp ep evs activated_js)))"
proof -
  have ts: "onePanel_ts (run_ts c evs activated_ts)"
    by (rule run_ts_onePanel [OF activated_ts_onePanel])
  have js: "onePanel_js (run_js rd au rp ep evs activated_js)"
    by (rule run_js_onePanel [OF activated_js_onePanel])
  show ?thesis
    using ts js onePanel_ts_card [OF ts] onePanel_js_card [OF js]
      openWebviewAndExplorerSidebar_step [OF ts, of c] showWebview_step [OF js, of rd au rp ep]
    by simp
qed

section \<open>Properties: the order of a node's children\<close>

lemma sortKey_le_iff: "(sortKey a \<le> sortKey b) = precedes a b"
  by (auto simp: sortKey_def precedes_def less_eq_prod_def)

lemma sortChildren_sorted: "sorted_wrt precedes (sortChildren ns)"
proof -
  have "sorted (map sortKey (sort_key sortKey ns))"
    by (rule sorted_sort_key)
  then have "sorted_wrt (\<lambda>a b. sortKey a \<le> sortKey b) (sort_key sortKey ns)"
    by (simp add: sorted_map)
  then show ?thesis
    by (simp add: sortChildren_def sortKey_le_iff)
qed

lemma set_sortChildren: "set (sortChildren ns) = set ns"
  by (simp add: sortChildren_def)

lemma walk_childrenOrdered: "list_all childrenOrdered (walk ig tys parent e)"
proof (induction ig tys parent e rule: walk.induct)
  case (1 ignoreSet types parent name)
  then show ?case by simp
next
  case (2 ignoreSet types parent name es)
  show ?case
  proof (cases "shouldInclude ignoreSet types name True")
    case False
    then show ?thesis by simp
  next
    case True
    have "\<forall>n \<in> set (concat (map (walk ignoreSet types (parent @ [name])) es)). childrenOrdered n"
      using 2 [OF True] by (auto simp: list_all_iff)
    then have "list_all childrenOrdered
        (sortChildren (concat (map (walk ignoreSet types (parent @ [name])) es)))"
      by (simp add: list_all_iff set_sortChildren)
    with True show ?thesis
      by (simp add: Let_def sortChildren_sorted)
  qed
qed

lemma precedes_directories_first:
  "sorted_wrt precedes cs \<Longrightarrow> i < j \<Longrightarrow> j < length cs \<Longrightarrow> isDirectory (cs ! j) \<Longrightarrow>
   isDirectory (cs ! i)"
  by (auto simp: sorted_wrt_iff_nth_less precedes_def)

lemma walk_example:
  "walk [] [''.ts''] []
     (DirEntry ''proj'' [FileEntry ''b.ts'', FileEntry ''a.ts'', DirEntry ''sub'' [FileEntry ''c.ts'']])
   = [Node [''proj''] ''proj'' True
        [Node [''proj'', ''sub''] ''sub'' True
           [Node [''proj'', ''sub'', ''c.ts''] ''c.ts'' False [] True] True,
         Node [''proj'', ''a.ts''] ''a.ts'' False [] True,
         Node [''proj'', ''b.ts''] ''b.ts'' False [] True] True]"
  by code_simp

lemma render_example:
  "map snd (render (walk [] [''.ts''] []
     (DirEntry ''proj'' [FileEntry ''b.ts'', FileEntry ''a.ts'', DirEntry ''sub'' [FileEntry ''c.ts'']])))
   = [''proj/'', ''sub/'', ''c.ts'', ''a.ts'', ''b.ts'']"
  by code_simp

text \<open>
  Claim C8, on the walker modelled from the specification. In every tree the walk gives,
  every node has its children in order: each child precedes every later one, that is, it
  is a directory and the later one a file, or both are of the same kind and its name,
  without case, is not above the later one's. For the directory that lists \<open>b.ts\<close>,
  \<open>a.ts\<close> and the subdirectory \<open>sub\<close> (which holds \<open>c.ts\<close>), the rendered lines are the
  directory, \<open>sub/\<close>, its file, \<open>a.ts\<close>, \<open>b.ts\<close>.
\<close>

theorem walk_orders_children:
  "list_all childrenOrdered (walk ignoreSet types parent e)
   \<and> walk [] [''.ts''] []
       (DirEntry ''proj'' [FileEntry ''b.ts'', FileEntry ''a.ts'', DirEntry ''sub'' [FileEntry ''c.ts'']])
     = [Node [''proj''] ''proj'' True
          [Node [''proj'', ''sub''] ''sub'' True
             [Node [''proj'', ''sub'', ''c.ts''] ''c.ts'' False [] True] True,
           Node [''proj'', ''a.ts''] ''a.ts'' False [] True,
           Node [''proj'', ''b.ts''] ''b.ts'' False [] True] True]
   \<and> map snd (render (walk [] [''.ts''] []
       (DirEntry ''proj'' [FileEntry ''b.ts'', FileEntry ''a.ts'', DirEntry ''sub'' [FileEntry ''c.ts'']])))
     = [''proj/'', ''sub/'', ''c.ts'', ''a.ts'', ''b.ts'']"
  using walk_childrenOrdered [of ignoreSet types parent e] walk_example render_example
  by (intro conjI)

section \<open>Properties: the reply of the message handler\<close>

lemma handleCommand_no_configUpdated:
  "\<not> list_ex isConfigUpdated (fst (handleCommand tok init persist ow msg c))"
proof -
  consider
      (refresh) "command msg = ascii ''refreshFileTypes''"
    | (level) "command msg = ascii ''setCompressionLevel''"
    | (types) "command msg = ascii ''setFileTypes''"
    | (height) "command msg = ascii ''setClipboardDataBoxHeight''"
    | (webpage) "command msg = ascii ''openWebpage''"
    | (tokens) "command msg = ascii ''countTokens''"
    | (chars) "command msg = ascii ''countChars''"
    | (counts) "command msg = ascii ''requestCounts''"
    | (toggle) "command msg = ascii ''updateFileTypes''"
    | (none) "command msg \<notin> set switchCases"
    by (auto simp: switchCases_def)
  then show ?thesis
  proof cases
    case refresh
    then show ?thesis by (simp add: handleCommand_def split: sum.split)
  next
    case level
    then show ?thesis by (simp add: handleCommand_def ascii_def)
  next
    case types
    then show ?thesis by (simp add: handleCommand_def ascii_def)
  next
    case height
    then show ?thesis by (simp add: handleCommand_def ascii_def)
  next
    case webpage
    then show ?thesis by (simp add: handleCommand_def ascii_def split: option.split)
  next
    case tokens
    then show ?thesis by (simp add: handleCommand_def ascii_def split: sum.split)
  next
    case chars
    then show ?thesis by (simp add: handleCommand_def ascii_def split: option.split)
  next
    case counts
    then show ?thesis
      by (simp add: handleCommand_def ascii_def split: sum.split option.split)
  next
    case toggle
    then show ?thesis
      by (simp add: handleCommand_def ascii_def Let_def split: sum.split)
  next
    case none
    then show ?thesis by (simp add: handleCommand_def switchCases_def)
  qed
qed

lemma handleReceivedMessage_completed:
  assumes "handleReceivedMessage tok init persist ow msg c = (out, Inr c')"
  shows "out \<noteq> [] \<and> last out =
     PostMessage (ConfigUpdated (getCompressionLevel c') (getFileTypes c')
       (getClipboardDataBoxHeight c'))"
  using assms
  by (auto simp: handleReceivedMessage_def split: prod.splits sum.splits)

lemma handleReceivedMessage_thrown:
  assumes "handleReceivedMessage tok init persist ow msg c = (out, Inl e)"
  shows "\<not> list_ex isConfigUpdated out"
proof -
  from assms have "handleCommand tok init persist ow msg c = (out, Inl e)"
    by (auto simp: handleReceivedMessage_def split: prod.splits sum.splits)
  then have "out = fst (handleCommand tok init persist ow msg c)" by simp
  then show ?thesis by (simp add: handleCommand_no_configUpdated)
qed

lemma handleReceivedMessage_unrecognised:
  assumes "command msg \<notin> set switchCases"
  shows "handleReceivedMessage tok init persist ow msg c =
     ([PostMessage (ConfigUpdated (getCompressionLevel c) (getFileTypes c)
         (getClipboardDataBoxHeight c))], Inr c)"
  using assms by (simp add: switchCases_def handleReceivedMessage_def handleCommand_def)

text \<open>
  Claim C10, as the code has it. When the case of the switch completes, whatever the
  command of the message, the last message the handler posts is \<open>configUpdated\<close> with
  the compression level, the file types and the clipboard box height that the
  configuration store holds after the message has been handled; for a command with no
  case that is all the handler posts. When the case throws, the handler posts no such
  \<open>configUpdated\<close>: a \<open>countChars\<close> or \<open>requestCounts\<close> message without text throws a
  TypeError (after the token count has been posted, for \<open>requestCounts\<close>), and a call
  that the case awaits and that is rejected ends the handler with its error.
\<close>

theorem handleReceivedMessage_posts_configUpdated_when_completed:
  "(handleReceivedMessage tok init persist ow msg c = (out, Inr c') \<longrightarrow>
      out \<noteq> [] \<and> last out =
        PostMessage (ConfigUpdated (getCompressionLevel c') (getFileTypes c')
          (getClipboardDataBoxHeight c')))
   \<and> (handleReceivedMessage tok init persist ow msg c = (out, Inl e) \<longrightarrow>
      \<not> list_ex isConfigUpdated out)
   \<and> (command msg \<notin> set switchCases \<longrightarrow>
      handleReceivedMessage tok init persist ow msg c =
        ([PostMessage (ConfigUpdated (getCompressionLevel c) (getFileTypes c)
            (getClipboardDataBoxHeight c))], Inr c))
   \<and> (command msg = ascii ''countTokens'' \<and> tok (text msg) = Inr n \<longrightarrow>
      handleReceivedMessage tok init persist ow msg c =
        ([PostMessage (SetTokenCount n),
          PostMessage (ConfigUpdated (getCompressionLevel c) (getFileTypes c)
            (getClipboardDataBoxHeight c))], Inr c))
   \<and> (command msg = ascii ''countChars'' \<and> text msg = None \<longrightarrow>
      handleReceivedMessage tok init persist ow msg c = ([], Inl TypeError))
   \<and> (command msg = ascii ''requestCounts'' \<and> text msg = None \<and> tok None = Inr n \<longrightarrow>
      handleReceivedMessage tok init persist ow msg c =
        ([PostMessage (SetTokenCount n)], Inl TypeError))
   \<and> (command msg = ascii ''refreshFileTypes'' \<and> init c = Inl e \<longrightarrow>
      handleReceivedMessage tok init persist ow msg c = ([], Inl e))
   \<and> (command msg = ascii ''setFileTypes''
        \<and> persist (c\<lparr>storedFileTypes := fileTypes msg\<rparr>) = Some e \<longrightarrow>
      handleReceivedMessage tok init persist ow msg c = ([], Inl e))"
proof (intro conjI)
  show "handleReceivedMessage tok init persist ow msg c = (out, Inr c') \<longrightarrow>
      out \<noteq> [] \<and> last out =
        PostMessage (ConfigUpdated (getCompressionLevel c') (getFileTypes c')
          (getClipboardDataBoxHeight c'))"
    by (intro impI) (rule handleReceivedMessage_completed)
next
  show "handleReceivedMessage tok init persist ow msg c = (out, Inl e) \<longrightarrow>
      \<not> list_ex isConfigUpdated out"
    by (intro impI) (rule handleReceivedMessage_thrown)
next
  show "command msg \<notin> set switchCases \<longrightarrow>
      handleReceivedMessage tok init persist ow msg c =
        ([PostMessage (ConfigUpdated (getCompressionLevel c) (getFileTypes c)
            (getClipboardDataBoxHeight c))], Inr c)"
    by (intro impI) (rule handleReceivedMessage_unrecognised)
next
  show "command msg = ascii ''countTokens'' \<and> tok (text msg) = Inr n \<longrightarrow>
      handleReceivedMessage tok init persist ow msg c =
        ([PostMessage (SetTokenCount n),
          PostMessage (ConfigUpdated (getCompressionLevel c) (getFileTypes c)
            (getClipboardDataBoxHeight c))], Inr c)"
    by (simp add: handleReceivedMessage_def handleCommand_def ascii_def)
next
  show "command msg = ascii ''countChars'' \<and> text msg = None \<longrightarrow>
      handleReceivedMessage tok init persist ow msg c = ([], Inl TypeError)"
    by (simp add: handleReceivedMessage_def handleCommand_def ascii_def)
next
  show "command msg = ascii ''requestCounts'' \<and> text msg = None \<and> tok None = Inr n \<longrightarrow>
      handleReceivedMessage tok init persist ow msg c =
        ([PostMessage (SetTokenCount n)], Inl TypeError)"
    by (simp add: handleReceivedMessage_def handleCommand_def ascii_def)
next
  show "command msg = ascii ''refreshFileTypes'' \<and> init c = Inl e \<longrightarrow>
      handleReceivedMessage tok init persist ow msg c = ([], Inl e)"
    by (simp add: handleReceivedMessage_def handleCommand_def refreshFileTypes_def)
next
  show "command msg = ascii ''setFileTypes''
        \<and> persist (c\<lparr>storedFileTypes := fileTypes msg\<rparr>) = Some e \<longrightarrow>
      handleReceivedMessage tok init persist ow msg c = ([], Inl e)"
    by (simp add: handleReceivedMessage_def handleCommand_def ascii_def setFileTypes_def
        written_def)
qed

theorem handleReceivedMessage_posts_configUpdated_when_completed_witness:
  "handleReceivedMessage countsUnits keepsStore writes openWebpageReturns
      \<lparr>command = ascii ''countChars'', level = 0::nat, fileTypes = [], height = 0::nat,
        text = Some (ascii ''abc''), fileType = []\<rparr>
      \<lparr>storedCompressionLevel = 0, storedFileTypes = [], storedClipboardDataBoxHeight = 0\<rparr>
    = ([PostMessage (SetCharCount 3), PostMessage (ConfigUpdated 0 [] 0)],
       Inr \<lparr>storedCompressionLevel = 0, storedFileTypes = [], storedClipboardDataBoxHeight = 0\<rparr>)
   \<and> handleReceivedMessage countsUnits keepsStore writes openWebpageReturns
      \<lparr>command = ascii ''countChars'', level = 0::nat, fileTypes = [], height = 0::nat,
        text = None, fileType = []\<rparr>
      \<lparr>storedCompressionLevel = 0, storedFileTypes = [], storedClipboardDataBoxHeight = 0\<rparr>
    = ([], Inl TypeError)
   \<and> handleReceivedMessage countsUnits keepsStore writes openWebpageReturns
      \<lparr>command = ascii ''hello'', level = 0::nat, fileTypes = [], height = 0::nat,
        text = None, fileType = []\<rparr>
      \<lparr>storedCompressionLevel = 0, storedFileTypes = [], storedClipboardDataBoxHeight = 0\<rparr>
    = ([PostMessage (ConfigUpdated 0 [] 0)],
       Inr \<lparr>storedCompressionLevel = 0, storedFileTypes = [], storedClipboardDataBoxHeight = 0\<rparr>)
   \<and> handleReceivedMessage countsUnits keepsStore writes openWebpageReturns
      \<lparr>command = ascii ''countTokens'', level = 0::nat, fileTypes = [], height = 0::nat,
        text = Some (ascii ''abc''), fileType = []\<rparr>
      \<lparr>storedCompressionLevel = 0, storedFileTypes = [], storedClipboardDataBoxHeight = 0\<rparr>
    = ([PostMessage (SetTokenCount 3), PostMessage (ConfigUpdated 0 [] 0)],
       Inr \<lparr>storedCompressionLevel = 0, storedFileTypes = [], storedClipboardDataBoxHeight = 0\<rparr>)
   \<and> handleReceivedMessage countsUnits keepsStore writes openWebpageReturns
      \<lparr>command = ascii ''requestCounts'', level = 0::nat, fileTypes = [], height = 0::nat,
        text = None, fileType = []\<rparr>
      \<lparr>storedCompressionLevel = 0, storedFileTypes = [], storedClipboardDataBoxHeight = 0\<rparr>
    = ([PostMessage (SetTokenCount 0)], Inl TypeError)
   \<and> handleReceivedMessage countsUnits initRejected writes openWebpageReturns
      \<lparr>command = ascii ''refreshFileTypes'', level = 0::nat, fileTypes = [], height = 0::nat,
        text = None, fileType = []\<rparr>
      \<lparr>storedCompressionLevel = 0, storedFileTypes = [], storedClipboardDataBoxHeight = 0\<rparr>
    = ([], Inl (Thrown (ascii ''no workspace'')))
   \<and> handleReceivedMessage countsUnits keepsStore writeRejected openWebpageReturns
      \<lparr>command = ascii ''setFileTypes'', level = 0::nat, fileTypes = [ascii ''.py''], height = 0::nat,
        text = None, fileType = []\<rparr>
      \<lparr>storedCompressionLevel = 0, storedFileTypes = [], storedClipboardDataBoxHeight = 0\<rparr>
    = ([], Inl (Thrown (ascii ''not writable'')))
   \<and> ascii ''hello'' \<notin> set switchCases"
  using handleReceivedMessage_posts_configUpdated_when_completed
    [where msg = "\<lparr>command = ascii ''countChars'', level = 0::nat, fileTypes = [], height = 0::nat,
        text = Some (ascii ''abc''), fileType = []\<rparr>"
     and tok = countsUnits and init = keepsStore and persist = writes and ow = openWebpageReturns
     and c = "\<lparr>storedCompressionLevel = 0, storedFileTypes = [], storedClipboardDataBoxHeight = 0\<rparr>"
     and out = "[PostMessage (SetCharCount 3), PostMessage (ConfigUpdated 0 [] 0)]"
     and c' = "\<lparr>storedCompressionLevel = 0, storedFileTypes = [], storedClipboardDataBoxHeight = 0\<rparr>"
     and e = "TypeError" and n = 3]
    handleReceivedMessage_posts_configUpdated_when_completed
    [where msg = "\<lparr>command = ascii ''countChars'', level = 0::nat, fileTypes = [], height = 0::nat,
        text = None, fileType = []\<rparr>"
     and tok = countsUnits and init = keepsStore and persist = writes and ow = openWebpageReturns
     and c = "\<lparr>storedCompressionLevel = 0, storedFileTypes = [], storedClipboardDataBoxHeight = 0\<rparr>"
     and out = "[]"
     and c' = "\<lparr>storedCompressionLevel = 0, storedFileTypes = [], storedClipboardDataBoxHeight = 0\<rparr>"
     and e = "TypeError" and n = 0]
    handleReceivedMessage_posts_configUpdated_when_completed
    [where msg = "\<lparr>command = ascii ''hello'', level = 0::nat, fileTypes = [], height = 0::nat,
        text = None, fileType = []\<rparr>"
     and tok = countsUnits and init = keepsStore and persist = writes and ow = openWebpageReturns
     and c = "\<lparr>storedCompressionLevel = 0, storedFileTypes = [], storedClipboardDataBoxHeight = 0\<rparr>"
     and out = "[PostMessage (ConfigUpdated 0 [] 0)]"
     and c' = "\<lparr>storedCompressionLevel = 0, storedFileTypes = [], storedClipboardDataBoxHeight = 0\<rparr>"
     and e = "TypeError" and n = 0]
    handleReceivedMessage_posts_configUpdated_when_completed
    [where msg = "\<lparr>command = ascii ''countTokens'', level = 0::nat, fileTypes = [], height = 0::nat,
        text = Some (ascii ''abc''), fileType = []\<rparr>"
     and tok = countsUnits and init = keepsStore and persist = writes and ow = openWebpageReturns
     and c = "\<lparr>storedCompressionLevel = 0, storedFileTypes = [], storedClipboardDataBoxHeight = 0\<rparr>"
     and out = "[]"
     and c' = "\<lparr>storedCompressionLevel = 0, storedFileTypes = [], storedClipboardDataBoxHeight = 0\<rparr>"
     and e = "TypeError" and n = 3]
    handleReceivedMessage_posts_configUpdated_when_completed
    [where msg = "\<lparr>command = ascii ''requestCounts'', level = 0::nat, fileTypes = [], height = 0::nat,
        text = None, fileType = []\<rparr>"
     and tok = countsUnits and init = keepsStore and persist = writes and ow = openWebpageReturns
     and c = "\<lparr>storedCompressionLevel = 0, storedFileTypes = [], storedClipboardDataBoxHeight = 0\<rparr>"
     and out = "[]"
     and c' = "\<lparr>storedCompressionLevel = 0, storedFileTypes = [], storedClipboardDataBoxHeight = 0\<rparr>"
     and e = "TypeError" and n = 0]
    handleReceivedMessage_posts_configUpdated_when_completed
    [where msg = "\<lparr>command = ascii ''refreshFileTypes'', level = 0::nat, fileTypes = [], height = 0::nat,
        text = None, fileType = []\<rparr>"
     and tok = countsUnits and init = initRejected and persist = writes and ow = openWebpageReturns
     and c = "\<lparr>storedCompressionLevel = 0, storedFileTypes = [], storedClipboardDataBoxHeight = 0\<rparr>"
     and out = "[]"
     and c' = "\<lparr>storedCompressionLevel = 0, storedFileTypes = [], storedClipboardDataBoxHeight = 0\<rparr>"
     and e = "Thrown (ascii ''no workspace'')" and n = 0]
    handleReceivedMessage_posts_configUpdated_when_completed
    [where msg = "\<lparr>command = ascii ''setFileTypes'', level = 0::nat, fileTypes = [ascii ''.py''], height = 0::nat,
        text = None, fileType = []\<rparr>"
     and tok = countsUnits and init = keepsStore and persist = writeRejected and ow = openWebpageReturns
     and c = "\<lparr>storedCompressionLevel = 0, storedFileTypes = [], storedClipboardDataBoxHeight = 0\<rparr>"
     and out = "[]"
     and c' = "\<lparr>storedCompressionLevel = 0, storedFileTypes = [], storedClipboardDataBoxHeight = 0\<rparr>"
     and e = "Thrown (ascii ''not writable'')" and n = 0]
  by (simp add: handleReceivedMessage_def handleCommand_def ascii_def switchCases_def
      countsUnits_def unitsAsTokens_def keepsStore_def writes_def initRejected_def
      writeRejected_def written_def refreshFileTypes_def setFileTypes_def charCount_def
      getCompressionLevel_def getFileTypes_def getClipboardDataBoxHeight_def)

text \<open>
  The claim as the specification words it fails on a \<open>countChars\<close> message that has no
  text: \<open>message.text.length\<close> throws, the lines after the switch do not run, and the
  handler has posted nothing.
\<close>

theorem handleReceivedMessage_no_reply_counterexample:
  "handleReceivedMessage countsUnits keepsStore writes openWebpageReturns
      \<lparr>command = ascii ''countChars'', level = 0::nat, fileTypes = [], height = 0::nat,
        text = None, fileType = []\<rparr>
      \<lparr>storedCompressionLevel = 0, storedFileTypes = [], storedClipboardDataBoxHeight = 0\<rparr>
    = ([], Inl TypeError)
   \<and> \<not> list_ex isConfigUpdated
     (fst (handleReceivedMessage countsUnits keepsStore writes openWebpageReturns
      \<lparr>command = ascii ''countChars'', level = 0::nat, fileTypes = [], height = 0::nat,
        text = None, fileType = []\<rparr>
      \<lparr>storedCompressionLevel = 0, storedFileTypes = [], storedClipboardDataBoxHeight = 0\<rparr>))"
  by (simp add: handleReceivedMessage_def handleCommand_def ascii_def)

section \<open>Properties: the token count\<close>

lemma segments_of_word: "word \<noteq> [] \<Longrightarrow> segments classify word t \<noteq> []"
  by (induction t arbitrary: word) (auto split: unitClass.splits)

lemma segments_append_length:
  "length (segments classify word t) \<le> length (segments classify word (t @ a))"
proof (induction t arbitrary: word)
  case Nil
  show ?case
  proof (cases "word = []")
    case True
    then show ?thesis by simp
  next
    case False
    then have "segments classify word a \<noteq> []" by (rule segments_of_word)
    then have "1 \<le> length (segments classify word a)"
      by (cases "segments classify word a") auto
    with False show ?thesis by simp
  qed
next
  case (Cons u t)
  then show ?case by (cases "classify u") auto
qed

lemma segments_example:
  "segments asciiClass [] (ascii ''foo, bar!'') =
     [ascii ''foo'', ascii '','', ascii ''bar'', ascii ''!'']"
  by (simp add: asciiClass_def ascii_def)

text \<open>
  Claim C6, on the token count modelled from the specification. Whatever is appended to
  a text (empty or not), the token count of the result is not below that of the text,
  for every classification of the units; the token count and the character count of the
  empty string are 0.
\<close>

theorem tokenCount_monotonic:
  "tokenCount classify t \<le> tokenCount classify (t @ appended)
   \<and> tokenCount classify [] = 0
   \<and> charCount [] = 0"
  by (simp add: tokenCount_def charCount_def segments_append_length)

section \<open>Properties: the compression transform\<close>

lemma splitLines_not_Nil: "splitLines t \<noteq> []"
  by (induction t) (auto split: list.splits)

lemma splitLines_no_newline: "l \<in> set (splitLines t) \<Longrightarrow> newline \<notin> set l"
  by (induction t arbitrary: l) (auto split: list.splits if_splits)

lemma joinLines_Cons: "ls \<noteq> [] \<Longrightarrow> joinLines (l # ls) = l @ newline # joinLines ls"
  by (cases ls) auto

lemma joinLines_splitLines: "joinLines (splitLines t) = t"
proof (induction t)
  case Nil
  then show ?case by simp
next
  case (Cons u t)
  show ?case
  proof (cases "u = newline")
    case True
    with Cons show ?thesis by (simp add: joinLines_Cons splitLines_not_Nil)
  next
    case False
    obtain l ls where sp: "splitLines t = l # ls"
      using splitLines_not_Nil [of t] by (cases "splitLines t") auto
    with Cons have "joinLines (l # ls) = t" by simp
    then have "joinLines ((u # l) # ls) = u # t" by (cases ls) auto
    with False sp show ?thesis by simp
  qed
qed

lemma splitLines_append_newline:
  "newline \<notin> set l \<Longrightarrow> splitLines (l @ newline # t) = l # splitLines t"
  by (induction l) auto

lemma splitLines_single: "newline \<notin> set l \<Longrightarrow> splitLines l = [l]"
  by (induction l) auto

lemma splitLines_joinLines:
  "ls \<noteq> [] \<Longrightarrow> (\<forall>l \<in> set ls. newline \<notin> set l) \<Longrightarrow> splitLines (joinLines ls) = ls"
proof (induction ls rule: joinLines.induct)
  case 1
  then show ?case by simp
next
  case (2 l)
  then show ?case by (simp add: splitLines_single)
next
  case (3 l m ls)
  then show ?case by (simp add: splitLines_append_newline)
qed

lemma stripTrailing_idem: "stripTrailing (stripTrailing l) = stripTrailing l"
  by (simp add: stripTrailing_def)

lemma stripTrailing_prefix: "stripTrailing l @ rev (takeWhile isSpace (rev l)) = l"
proof -
  have "rev (takeWhile isSpace (rev l) @ dropWhile isSpace (rev l)) = l"
    by simp
  then show ?thesis by (simp add: stripTrailing_def del: takeWhile_dropWhile_id)
qed

lemma set_stripTrailing: "set (stripTrailing l) \<subseteq> set l"
  using set_dropWhileD [of _ isSpace "rev l"] by (auto simp: stripTrailing_def)

lemma collapseBlank_head: "\<exists>r. collapseBlank (m # ls) = m # r"
  by (induction ls arbitrary: m) auto

lemma collapseBlank_idem: "collapseBlank (collapseBlank ls) = collapseBlank ls"
proof (induction ls rule: collapseBlank.induct)
  case 1
  then show ?case by simp
next
  case (2 l)
  then show ?case by simp
next
  case (3 l m ls)
  obtain r where r: "collapseBlank (m # ls) = m # r"
    using collapseBlank_head by blast
  show ?case
  proof (cases "l = [] \<and> m = []")
    case True
    with 3 show ?thesis by simp
  next
    case False
    with 3 have "collapseBlank (m # r) = m # r" using r by simp
    with False r show ?thesis by auto
  qed
qed

lemma set_collapseBlank: "set (collapseBlank ls) \<subseteq> set ls"
  by (induction ls rule: collapseBlank.induct) auto

lemma collapseBlank_not_Nil: "ls \<noteq> [] \<Longrightarrow> collapseBlank ls \<noteq> []"
  using collapseBlank_head [of "hd ls" "tl ls"] by (cases ls) auto

lemma light_idem: "light (light t) = light t"
proof -
  define ls where "ls = collapseBlank (map stripTrailing (splitLines t))"
  have ne: "ls \<noteq> []"
    unfolding ls_def by (rule collapseBlank_not_Nil) (simp add: splitLines_not_Nil)
  have sub: "set ls \<subseteq> stripTrailing ` set (splitLines t)"
    unfolding ls_def using set_collapseBlank [of "map stripTrailing (splitLines t)"] by simp
  have nonl: "\<forall>l \<in> set ls. newline \<notin> set l"
    using sub splitLines_no_newline set_stripTrailing by fastforce
  have stripped: "\<forall>l \<in> set ls. stripTrailing l = l"
    using sub stripTrailing_idem by fastforce
  have "splitLines (joinLines ls) = ls"
    by (rule splitLines_joinLines [OF ne nonl])
  moreover have "map stripTrailing ls = ls"
    using stripped by (simp add: map_idI)
  moreover have "collapseBlank ls = ls"
    unfolding ls_def by (rule collapseBlank_idem)
  ultimately show ?thesis
    by (simp add: light_def ls_def [symmetric])
qed

lemma stripComments_keeps_head:
  "v \<noteq> slash \<Longrightarrow> stripComments (v # us) = v # stripComments us"
  by (cases us) auto

lemma stripComments_clean: "\<not> hasCommentStart (stripComments t)"
proof (induction t rule: stripComments.induct)
  case 1
  then show ?case by simp
next
  case (2 u)
  then show ?case by simp
next
  case (3 u v us)
  show ?case
  proof (cases "u = slash \<and> (v = star \<or> v = slash)")
    case True
    with 3 show ?thesis by auto
  next
    case False
    then have eq: "stripComments (u # v # us) = u # stripComments (v # us)" by auto
    have ih: "\<not> hasCommentStart (stripComments (v # us))" using 3 False by auto
    show ?thesis
    proof (cases "u = slash")
      case True
      with False have "v \<noteq> slash" "v \<noteq> star" by auto
      then have "stripComments (v # us) = v # stripComments us"
        by (simp add: stripComments_keeps_head)
      with ih eq \<open>v \<noteq> slash\<close> \<open>v \<noteq> star\<close> show ?thesis by simp
    next
      case False
      with ih eq show ?thesis by (cases "stripComments (v # us)") auto
    qed
  qed
qed

lemma stripComments_id: "\<not> hasCommentStart t \<Longrightarrow> stripComments t = t"
  by (induction t rule: hasCommentStart.induct) auto

lemma hasCommentStart_append_newline:
  "hasCommentStart (a @ newline # b) = (hasCommentStart a \<or> hasCommentStart b)"
proof (induction a rule: hasCommentStart.induct)
  case 1
  then show ?case by (cases b) (auto simp: newline_def slash_def)
next
  case (2 u)
  then show ?case by (cases b) (auto simp: newline_def slash_def star_def)
next
  case (3 u v us)
  then show ?case by auto
qed

lemma hasCommentStart_joinLines: "hasCommentStart (joinLines ls) = list_ex hasCommentStart ls"
  by (induction ls rule: joinLines.induct) (auto simp: hasCommentStart_append_newline)

lemma hasCommentStart_prefix: "hasCommentStart a \<Longrightarrow> hasCommentStart (a @ b)"
  by (induction a rule: hasCommentStart.induct) auto

lemma hasCommentStart_stripTrailing: "hasCommentStart (stripTrailing l) \<Longrightarrow> hasCommentStart l"
  using hasCommentStart_prefix [of "stripTrailing l" "rev (takeWhile isSpace (rev l))"]
  by (simp add: stripTrailing_prefix)

lemma light_clean: "\<not> hasCommentStart t \<Longrightarrow> \<not> hasCommentStart (light t)"
proof
  assume clean: "\<not> hasCommentStart t" and "hasCommentStart (light t)"
  then obtain l where l: "l \<in> set (collapseBlank (map stripTrailing (splitLines t)))"
      and hl: "hasCommentStart l"
    by (auto simp: light_def hasCommentStart_joinLines list_ex_iff)
  from l set_collapseBlank obtain k where k: "k \<in> set (splitLines t)" and lk: "l = stripTrailing k"
    by fastforce
  from hl lk have "hasCommentStart k" by (simp add: hasCommentStart_stripTrailing)
  with k have "list_ex hasCommentStart (splitLines t)" by (auto simp: list_ex_iff)
  then have "hasCommentStart (joinLines (splitLines t))" by (simp add: hasCommentStart_joinLines)
  with clean show False by (simp add: joinLines_splitLines)
qed

lemma full_idem: "full (full t) = full t"
proof -
  have "\<not> hasCommentStart (light (stripComments t))"
    by (rule light_clean [OF stripComments_clean])
  then have "stripComments (light (stripComments t)) = light (stripComments t)"
    by (rule stripComments_id)
  then show ?thesis by (simp add: full_def light_idem)
qed

lemma light_example:
  "light (ascii ''a  '' @ [newline, newline, newline] @ ascii ''b'') =
     ascii ''a'' @ [newline, newline] @ ascii ''b''"
  by (simp add: light_def stripTrailing_def isSpace_def newline_def ascii_def)

lemma full_example:
  "full (ascii ''x = 1; // one'' @ [newline] @ ascii ''/* two */'' @ [newline] @ ascii ''y'') =
     ascii ''x = 1;'' @ [newline, newline] @ ascii ''y''"
  by (simp add: full_def light_def stripTrailing_def isSpace_def newline_def slash_def star_def
      ascii_def)

text \<open>
  Claim C7, on the compression transform modelled from the specification. For Light and
  for Full, compressing a compressed text gives the compressed text.
\<close>

theorem compress_idempotent:
  "compress (compress t Light) Light = compress t Light
   \<and> compress (compress t Full) Full = compress t Full"
  by (simp add: light_idem full_idem)

end
